theory Spec2Isabelle
  imports Complex_Main "HOL-Library.Sublist"
begin

section \<open>Numbers\<close>

text \<open>
  A number of the program is an IEEE 754 double. The values that occur here are finite and
  far below the overflow threshold, so a double is modelled by the rational it denotes, and
  an arithmetic operation by the exact operation followed by \<open>fl64\<close>, the rounding to the
  nearest double with ties to the even significand (53 bits, least exponent \<open>-1022\<close>,
  subnormals included). The length of an array is below \<open>2 ^ 32\<close> and is a double as it is.
\<close>

text \<open>The number of binary digits of a natural number.\<close>

fun bitlen :: "nat \<Rightarrow> nat" where
  "bitlen n = (if n = 0 then 0 else Suc (bitlen (n div 2)))"

declare bitlen.simps [simp del]

text \<open>For positive \<open>x\<close>, the exponent \<open>e\<close> with \<open>2 powi e \<le> x < 2 powi (e + 1)\<close>.\<close>

definition ilog2 :: "rat \<Rightarrow> int" where
  "ilog2 x = (if 1 \<le> x then int (bitlen (nat \<lfloor>x\<rfloor>)) - 1
              else - int (bitlen (nat (\<lceil>1 / x\<rceil> - 1))))"

definition round_even :: "rat \<Rightarrow> int" where
  "round_even z =
     (let f = \<lfloor>z\<rfloor>; r = z - of_int f
      in if r < 1 / 2 then f else if 1 / 2 < r then f + 1 else if even f then f else f + 1)"

text \<open>The spacing of the doubles around a positive value.\<close>

definition ulp :: "rat \<Rightarrow> rat" where
  "ulp a = 2 powi (max (ilog2 a) (- 1022) - 52)"

definition fl64 :: "rat \<Rightarrow> rat" where
  "fl64 x =
     (if x = 0 then 0
      else sgn x * of_int (round_even (\<bar>x\<bar> / ulp \<bar>x\<bar>)) * ulp \<bar>x\<bar>)"

definition js_div :: "rat \<Rightarrow> rat \<Rightarrow> rat" where
  "js_div a b = fl64 (a / b)"

definition js_mul :: "rat \<Rightarrow> rat \<Rightarrow> rat" where
  "js_mul a b = fl64 (a * b)"

text \<open>\<open>Math.round\<close>: the nearest integer, a tie going up.\<close>

definition Math_round :: "rat \<Rightarrow> int" where
  "Math_round y = \<lfloor>y + 1 / 2\<rfloor>"

text \<open>\<open>(m / n) * 100\<close> on two array lengths, as both scoring functions compute it.\<close>

definition percent :: "nat \<Rightarrow> nat \<Rightarrow> rat" where
  "percent m n = js_mul (js_div (of_nat m) (of_nat n)) 100"

section \<open>Strings\<close>

text \<open>
  Text is a \<^typ>\<open>string\<close>. \<open>String.prototype.includes\<close> is the contiguous-substring
  test \<^const>\<open>sublist\<close>. \<open>String.prototype.toLowerCase\<close> applies the case mapping of
  Unicode, which is no part of the program. The matching functions below take the
  lower-casing function as their parameter \<open>lower\<close>, and what is proved of them holds for
  every such function. \<open>toLowerCase\<close> is the mapping on the letters \<open>A\<close> to \<open>Z\<close>, every
  other character left as it is: it is what the runtime does on ASCII text, and it is used
  for the skill vocabulary, which is ASCII, and in the examples, which are.
\<close>

definition toLowerChar :: "char \<Rightarrow> char" where
  "toLowerChar c =
     (let n = (of_char c :: nat) in if 65 \<le> n \<and> n \<le> 90 then char_of (n + 32) else c)"

definition toLowerCase :: "string \<Rightarrow> string" where
  "toLowerCase s = map toLowerChar s"

definition str_includes :: "string \<Rightarrow> string \<Rightarrow> bool" where
  "str_includes t s = sublist s t"

section \<open>Skill extraction (\<open>extractSkillsFromText\<close>)\<close>

definition commonSkills :: "string list" where
  "commonSkills =
    [''javascript'', ''typescript'', ''react'', ''node'', ''express'', ''mongodb'', ''sql'',
     ''python'', ''java'', ''c#'', ''c++'', ''php'', ''ruby'', ''go'', ''rust'', ''swift'',
     ''html'', ''css'', ''sass'', ''less'', ''tailwind'', ''bootstrap'', ''material-ui'',
     ''aws'', ''azure'', ''gcp'', ''docker'', ''kubernetes'', ''jenkins'', ''git'', ''github'',
     ''gitlab'', ''bitbucket'', ''jira'', ''agile'', ''scrum'', ''kanban'', ''devops'',
     ''ci/cd'', ''testing'', ''jest'', ''mocha'', ''cypress'', ''selenium'', ''qa'',
     ''product management'', ''project management'', ''ui/ux'', ''figma'', ''sketch'',
     ''adobe'', ''photoshop'', ''illustrator'', ''xd'', ''indesign'', ''marketing'',
     ''seo'', ''sem'', ''content'', ''social media'', ''analytics'', ''data science'',
     ''machine learning'', ''ai'', ''nlp'', ''computer vision'', ''data analysis'',
     ''statistics'', ''r'', ''tableau'', ''power bi'', ''excel'', ''word'', ''powerpoint'',
     ''communication'', ''leadership'', ''teamwork'', ''problem solving'', ''critical thinking'']"

definition extractSkillsFromText :: "string \<Rightarrow> string list" where
  "extractSkillsFromText t =
     (let lowerText = toLowerCase t
      in filter (\<lambda>skill. str_includes lowerText (toLowerCase skill)) commonSkills)"

section \<open>The relational store\<close>

text \<open>
  The tables that the processors and the queue handlers touch, with the constraints of the
  migration: \<open>SeekerSkill.seekerProfileId\<close> references \<open>SeekerProfile.id\<close>, and
  \<open>(seekerProfileId, name)\<close> is unique on \<open>SeekerSkill\<close>. A \<open>SeekerSkill\<close> row is the pair
  \<open>(seekerProfileId, name)\<close>; rows are kept in creation order. A thrown exception is an
  \<open>error\<close> value carrying its message; the wording of the messages of the persistence
  client is a placeholder. A record keeps the columns that the functions below read; the
  e-mail address of the user and the company name of the employer profile, which the
  queries join in, are kept with the seeker profile and the job posting.
\<close>

type_synonym ident = string

datatype error = Error (message: string)

record seekerProfile =
  firstName :: string
  lastName :: string
  email :: string
  profileCvUrl :: "string option"
  parsedCvText :: "string option"

record jobPosting =
  title :: string
  description :: "string option"
  requirements :: "string option"
  employerCompanyName :: "string option"
  tags :: "string list"

record CvParsingResult =
  parsedText :: string
  extractedSkills :: "string list"

datatype JobMatchingResult =
    MatchOne ident int
  | MatchAll "(ident \<times> int) list"

text \<open>What \<open>JSON.stringify\<close> is applied to when a handler stores the result of a task.\<close>

datatype json =
    ErrorJson string
  | CvParsingJson CvParsingResult
  | CoverLetterJson string
  | JobMatchingJson JobMatchingResult

record jobQueueRow =
  status :: string
  result :: "json option"

text \<open>
  \<open>seekerProfileOfUser\<close> is the unique index of \<open>SeekerProfile\<close> on \<open>userId\<close>: the id of the
  profile of a user.
\<close>

record db =
  seekerProfiles :: "ident \<rightharpoonup> seekerProfile"
  seekerProfileOfUser :: "ident \<rightharpoonup> ident"
  seekerSkill :: "(ident \<times> string) list"
  jobPostings :: "(ident \<times> jobPosting) list"
  jobQueue :: "ident \<rightharpoonup> jobQueueRow"
  applications :: "ident \<rightharpoonup> string"

text \<open>
  \<open>jobPosting.findMany\<close> returns the rows in the order of the table; \<open>findUnique\<close> looks a
  row up by its primary key.
\<close>

definition seekerProfile_findByUser :: "ident \<Rightarrow> db \<Rightarrow> (ident \<times> seekerProfile) option" where
  "seekerProfile_findByUser uid d =
     (case seekerProfileOfUser d uid of
        None \<Rightarrow> None
      | Some pid \<Rightarrow> map_option (Pair pid) (seekerProfiles d pid))"

definition jobPosting_findMany :: "db \<Rightarrow> (ident \<times> jobPosting) list" where
  "jobPosting_findMany d = jobPostings d"

definition jobPosting_findUnique :: "ident \<Rightarrow> db \<Rightarrow> jobPosting option" where
  "jobPosting_findUnique jid d = map_of (jobPostings d) jid"

definition seekerSkill_findFirst :: "ident \<Rightarrow> string \<Rightarrow> db \<Rightarrow> (ident \<times> string) option" where
  "seekerSkill_findFirst pid name d = find (\<lambda>row. row = (pid, name)) (seekerSkill d)"

definition seekerSkill_create :: "ident \<Rightarrow> string \<Rightarrow> db \<Rightarrow> error + db" where
  "seekerSkill_create pid name d =
     (if seekerProfiles d pid = None then Inl (Error ''Foreign key constraint failed'')
      else if (pid, name) \<in> set (seekerSkill d) then Inl (Error ''Unique constraint failed'')
      else Inr (d\<lparr>seekerSkill := seekerSkill d @ [(pid, name)]\<rparr>))"

definition jobQueue_update :: "ident \<Rightarrow> string \<Rightarrow> json \<Rightarrow> db \<Rightarrow> error + db" where
  "jobQueue_update qid st res d =
     (case jobQueue d qid of
        None \<Rightarrow> Inl (Error ''Record to update not found'')
      | Some row \<Rightarrow> Inr (d\<lparr>jobQueue := (jobQueue d)(qid \<mapsto> row\<lparr>status := st, result := Some res\<rparr>)\<rparr>))"

definition seekerProfile_update_parsedCvText :: "ident \<Rightarrow> string \<Rightarrow> db \<Rightarrow> error + db" where
  "seekerProfile_update_parsedCvText pid t d =
     (case seekerProfiles d pid of
        None \<Rightarrow> Inl (Error ''Record to update not found'')
      | Some p \<Rightarrow> Inr (d\<lparr>seekerProfiles := (seekerProfiles d)(pid \<mapsto> p\<lparr>parsedCvText := Some t\<rparr>)\<rparr>))"

definition application_update_coverLetter :: "ident \<Rightarrow> string \<Rightarrow> db \<Rightarrow> error + db" where
  "application_update_coverLetter aid t d =
     (case applications d aid of
        None \<Rightarrow> Inl (Error ''Record to update not found'')
      | Some _ \<Rightarrow> Inr (d\<lparr>applications := (applications d)(aid \<mapsto> t)\<rparr>))"

section \<open>CV parsing (\<open>processCvParsing\<close>)\<close>

record CvParsingJobData =
  seekerProfileId :: ident
  cvUrl :: string
  dbJobId :: ident

definition sampleCvText :: string where
  "sampleCvText =
      ''\<newline>'' @
      ''    PROFESSIONAL SUMMARY\<newline>'' @
      ''    Experienced software developer with 5 years of experience in full-stack web development.\<newline>'' @
      ''    Proficient in JavaScript, TypeScript, React, Node.js, and Express.\<newline>'' @
      ''    \<newline>'' @
      ''    SKILLS\<newline>'' @
      ''    - Frontend: React, Redux, HTML5, CSS3, Tailwind CSS\<newline>'' @
      ''    - Backend: Node.js, Express, NestJS\<newline>'' @
      ''    - Databases: MongoDB, PostgreSQL\<newline>'' @
      ''    - DevOps: Docker, AWS, CI/CD pipelines\<newline>'' @
      ''    - Testing: Jest, React Testing Library\<newline>'' @
      ''    \<newline>'' @
      ''    EXPERIENCE\<newline>'' @
      ''    Senior Software Engineer | TechCorp Inc. | 2020-Present\<newline>'' @
      ''    - Developed and maintained multiple React applications\<newline>'' @
      ''    - Implemented RESTful APIs using Node.js and Express\<newline>'' @
      ''    - Worked with cross-functional teams to deliver features on time\<newline>'' @
      ''    \<newline>'' @
      ''    Software Developer | WebSolutions LLC | 2018-2020\<newline>'' @
      ''    - Built responsive web applications using React\<newline>'' @
      ''    - Created backend services with Node.js and MongoDB\<newline>'' @
      ''    - Participated in code reviews and mentored junior developers\<newline>'' @
      ''    \<newline>'' @
      ''    EDUCATION\<newline>'' @
      ''    Bachelor of Science in Computer Science | Tech University | 2018\<newline>'' @
      ''    ''"

text \<open>
  The loop that saves the extracted skills: look the skill up for this seeker, create it when
  no row is found. A failing \<open>create\<close> throws out of the loop; the rows created before it stay.
\<close>

fun saveSkills :: "ident \<Rightarrow> string list \<Rightarrow> db \<Rightarrow> error option \<times> db" where
  "saveSkills pid [] d = (None, d)"
| "saveSkills pid (skill # rest) d =
     (case seekerSkill_findFirst pid skill d of
        Some existingSkill \<Rightarrow> saveSkills pid rest d
      | None \<Rightarrow>
          (case seekerSkill_create pid skill d of
             Inl e \<Rightarrow> (Some e, d)
           | Inr d' \<Rightarrow> saveSkills pid rest d'))"

definition processCvParsing :: "CvParsingJobData \<Rightarrow> db \<Rightarrow> (error + CvParsingResult) \<times> db" where
  "processCvParsing data d =
     (let extracted = extractSkillsFromText sampleCvText
      in case saveSkills (seekerProfileId data) extracted d of
           (Some e, d') \<Rightarrow> (Inl e, d')
         | (None, d') \<Rightarrow> (Inr \<lparr>parsedText = sampleCvText, extractedSkills = extracted\<rparr>, d'))"

section \<open>Cover letters (\<open>processCoverLetterGeneration\<close>)\<close>

record CoverLetterJobData =
  applicationId :: ident
  seekerProfileId_cl :: ident
  jobPostingId :: ident
  dbJobId_cl :: ident

text \<open>\<open>Array.prototype.join\<close> with a separator.\<close>

fun join :: "string \<Rightarrow> string list \<Rightarrow> string" where
  "join sep [] = []"
| "join sep [x] = x"
| "join sep (x # y # ys) = x @ sep @ join sep (y # ys)"

text \<open>The names of the skill rows of a seeker profile (\<open>include: { skills: true }\<close>).\<close>

definition skillsOf :: "ident \<Rightarrow> db \<Rightarrow> string list" where
  "skillsOf pid d = map snd (filter (\<lambda>row. fst row = pid) (seekerSkill d))"

text \<open>
  \<open>employerProfile?.companyName || 'Company'\<close>: a missing employer profile and an empty
  company name both give the placeholder.
\<close>

definition companyNameOr :: "string option \<Rightarrow> string" where
  "companyNameOr c = (case c of None \<Rightarrow> ''Company'' | Some n \<Rightarrow> if n = [] then ''Company'' else n)"

definition coverLetterTemplate :: "seekerProfile \<Rightarrow> string \<Rightarrow> string \<Rightarrow> string \<Rightarrow> string \<Rightarrow> string" where
  "coverLetterTemplate p seekerName companyName jobTitle skills =
          ''\<newline>'' @
          ''    '' @
          seekerName @
          ''\<newline>'' @
          ''    '' @
          email p @
          ''\<newline>'' @
          ''    \<newline>'' @
          ''    Dear Hiring Manager at '' @
          companyName @
          '',\<newline>'' @
          ''    \<newline>'' @
          ''    I am writing to express my interest in the '' @
          jobTitle @
          '' position at '' @
          companyName @
          ''. With my background and skills in '' @
          skills @
          '', I believe I would be a valuable addition to your team.\<newline>'' @
          ''    \<newline>'' @
          ''    Throughout my career, I have developed strong expertise in web development technologies and have consistently delivered high-quality solutions. My experience aligns well with the requirements outlined in your job posting, and I am excited about the opportunity to contribute to your organization.\<newline>'' @
          ''    \<newline>'' @
          ''    In my previous roles, I have successfully implemented complex features, collaborated with cross-functional teams, and maintained a focus on delivering exceptional user experiences. I am particularly drawn to '' @
          companyName @
          [CHR 0x27] @
          ''s innovative approach to technology solutions and would welcome the chance to be part of your continued success.\<newline>'' @
          ''    \<newline>'' @
          ''    I am confident that my technical skills, combined with my problem-solving abilities and teamwork, make me a strong candidate for this position. I look forward to the opportunity to discuss how my background and experience can benefit '' @
          companyName @
          ''.\<newline>'' @
          ''    \<newline>'' @
          ''    Thank you for considering my application.\<newline>'' @
          ''    \<newline>'' @
          ''    Sincerely,\<newline>'' @
          ''    '' @
          seekerName @
          ''\<newline>'' @
          ''    ''"

text \<open>
  The processor reads the store and writes nothing. The prompt string that the source builds
  and never uses is left out.
\<close>

definition processCoverLetterGeneration :: "CoverLetterJobData \<Rightarrow> db \<Rightarrow> error + string" where
  "processCoverLetterGeneration data d =
     (case seekerProfiles d (seekerProfileId_cl data) of
        None \<Rightarrow> Inl (Error ''Seeker profile not found'')
      | Some p \<Rightarrow>
          (case jobPosting_findUnique (jobPostingId data) d of
             None \<Rightarrow> Inl (Error ''Job posting not found'')
           | Some j \<Rightarrow>
               (let companyName = companyNameOr (employerCompanyName j);
                    seekerName = firstName p @ '' '' @ lastName p;
                    jobTitle = title j;
                    skills = join '', '' (skillsOf (seekerProfileId_cl data) d)
                in Inr (coverLetterTemplate p seekerName companyName jobTitle skills))))"

section \<open>Matching (\<open>findMatchingJobs\<close>, \<open>getJobRecommendations\<close>, \<open>calculateJobMatch\<close>)\<close>

record matchedJob =
  jobOf :: "ident \<times> jobPosting"
  matchScore :: rat
  matchingTags :: "string list"

text \<open>The body of the \<open>map\<close> over the job postings; \<open>seekerSkills\<close> is already lower-cased.\<close>

definition matchJob :: "(string \<Rightarrow> string) \<Rightarrow> string list \<Rightarrow> ident \<times> jobPosting \<Rightarrow> matchedJob" where
  "matchJob lower seekerSkills j =
     (let jobTags = map lower (tags (snd j));
          matchingTags = filter (\<lambda>tag. tag \<in> set seekerSkills) jobTags;
          score = (if length jobTags > 0
                   then percent (length matchingTags) (length jobTags)
                   else 0)
      in \<lparr>jobOf = j, matchScore = score, matchingTags = matchingTags\<rparr>)"

text \<open>
  \<open>Array.prototype.sort\<close> is stable, and the comparator \<open>b.matchScore - a.matchScore\<close> is
  negative, zero or positive as \<open>b.matchScore\<close> is below, equal to or above \<open>a.matchScore\<close>:
  the result is the stable sort by descending \<open>matchScore\<close>.
\<close>

definition findMatchingJobs :: "(string \<Rightarrow> string) \<Rightarrow> ident \<Rightarrow> db \<Rightarrow> error + matchedJob list" where
  "findMatchingJobs lower pid d =
     (case seekerProfiles d pid of
        None \<Rightarrow> Inl (Error ''Seeker profile not found'')
      | Some p \<Rightarrow>
          (let seekerSkills = map lower (skillsOf pid d);
               matchedJobs = map (matchJob lower seekerSkills) (jobPosting_findMany d)
           in Inr (sort_key (\<lambda>m. - matchScore m) matchedJobs)))"

record recommendation =
  rec_id :: ident
  rec_title :: string
  company :: string
  rec_matchScore :: int
  matchingSkills :: "string list"

definition toRecommendation :: "matchedJob \<Rightarrow> recommendation" where
  "toRecommendation m =
     \<lparr>rec_id = fst (jobOf m),
      rec_title = title (snd (jobOf m)),
      company = companyNameOr (employerCompanyName (snd (jobOf m))),
      rec_matchScore = Math_round (matchScore m),
      matchingSkills = matchingTags m\<rparr>"

definition getJobRecommendations :: "(string \<Rightarrow> string) \<Rightarrow> ident \<Rightarrow> db \<Rightarrow> error + recommendation list" where
  "getJobRecommendations lower pid d =
     (case findMatchingJobs lower pid d of
        Inl e \<Rightarrow> Inl e
      | Inr matchedJobs \<Rightarrow> Inr (map toRecommendation matchedJobs))"

text \<open>\<open>x || ''\<close> on an optional string.\<close>

definition orEmpty :: "string option \<Rightarrow> string" where
  "orEmpty x = (case x of None \<Rightarrow> [] | Some t \<Rightarrow> t)"

text \<open>
  \<open>calculateJobMatch\<close> on the names of the seeker's skills and the requirements and
  description of the job; \<open>seekerSkills.length || 1\<close> is the length, or 1 for an empty list.
\<close>

definition calculateJobMatch ::
  "(string \<Rightarrow> string) \<Rightarrow> string list \<Rightarrow> string option \<Rightarrow> string option \<Rightarrow> int" where
  "calculateJobMatch lower skills req desc =
     (let seekerSkills = map lower skills;
          t = lower (orEmpty req @ '' '' @ orEmpty desc);
          total = (if length seekerSkills = 0 then 1 else length seekerSkills);
          matched = length (filter (\<lambda>s. str_includes t s) seekerSkills)
      in Math_round (percent matched total))"

record JobMatchingData =
  seekerProfileId_jm :: ident
  jobPostingId_jm :: "ident option"
  dbJobId_jm :: "ident option"

text \<open>
  An optional string in a condition: absent and empty are both false, and inside the
  branch the string is there.
\<close>

definition present :: "string option \<Rightarrow> string option" where
  "present x = (case x of None \<Rightarrow> None | Some t \<Rightarrow> if t = [] then None else Some t)"

definition processJobMatching ::
  "(string \<Rightarrow> string) \<Rightarrow> JobMatchingData \<Rightarrow> db \<Rightarrow> error + JobMatchingResult" where
  "processJobMatching lower data d =
     (case seekerProfiles d (seekerProfileId_jm data) of
        None \<Rightarrow> Inl (Error (''Seeker profile with ID '' @ seekerProfileId_jm data @ '' not found''))
      | Some p \<Rightarrow>
          (case present (jobPostingId_jm data) of
             Some jid \<Rightarrow>
               (case jobPosting_findUnique jid d of
                  None \<Rightarrow> Inl (Error (''Job posting with ID '' @ jid @ '' not found''))
                | Some j \<Rightarrow>
                    Inr (MatchOne jid
                           (calculateJobMatch lower (skillsOf (seekerProfileId_jm data) d)
                              (requirements j) (description j))))
           | None \<Rightarrow>
               Inr (MatchAll
                      (map (\<lambda>row. (fst row,
                                     calculateJobMatch lower (skillsOf (seekerProfileId_jm data) d)
                                       (requirements (snd row)) (description (snd row))))
                           (jobPosting_findMany d)))))"

text \<open>
  The score as the specification words it, for \<open>m\<close> matches out of \<open>n\<close>:
  \<open>round(100 * m / n)\<close> on exact numbers, a half rounding up, and 0 when \<open>n\<close> is 0.
\<close>

definition spec_score :: "nat \<Rightarrow> nat \<Rightarrow> int" where
  "spec_score m n = (if n = 0 then 0 else Math_round (100 * of_nat m / of_nat n))"

text \<open>\<open>100 * m / n\<close> lies exactly halfway between two integers.\<close>

definition exact_tie :: "nat \<Rightarrow> nat \<Rightarrow> bool" where
  "exact_tie m n = (2 * n dvd 200 * m + n)"

text \<open>The double \<open>(m / n) * 100\<close> lies below the exact quotient \<open>100 * m / n\<close>.\<close>

definition double_below :: "nat \<Rightarrow> nat \<Rightarrow> bool" where
  "double_below m n = (percent m n < 100 * of_nat m / of_nat n)"

section \<open>Workers and their event handlers (\<open>setupQueues\<close>)\<close>

text \<open>
  A worker runs the processor on the payload of a delivered job; the queue library then fires
  \<open>completed\<close> with the processor's result, or \<open>failed\<close> with the thrown error. A handler
  whose own update throws leaves the store as it was at that point; its error goes nowhere,
  and is returned here next to the store.
\<close>

definition cvParsing_on_completed :: "CvParsingJobData \<Rightarrow> CvParsingResult \<Rightarrow> db \<Rightarrow> error option \<times> db" where
  "cvParsing_on_completed job res d =
     (case jobQueue_update (dbJobId job) ''COMPLETED'' (CvParsingJson res) d of
        Inl e \<Rightarrow> (Some e, d)
      | Inr d' \<Rightarrow>
          (case seekerProfile_update_parsedCvText (seekerProfileId job) (parsedText res) d' of
             Inl e \<Rightarrow> (Some e, d')
           | Inr d'' \<Rightarrow> (None, d'')))"

definition cvParsing_on_failed :: "CvParsingJobData option \<Rightarrow> error \<Rightarrow> db \<Rightarrow> error option \<times> db" where
  "cvParsing_on_failed job err d =
     (case job of
        None \<Rightarrow> (None, d)
      | Some j \<Rightarrow>
          (case jobQueue_update (dbJobId j) ''FAILED'' (ErrorJson (message err)) d of
             Inl e \<Rightarrow> (Some e, d)
           | Inr d' \<Rightarrow> (None, d')))"

definition cvParsingWorker :: "CvParsingJobData \<Rightarrow> db \<Rightarrow> error option \<times> db" where
  "cvParsingWorker job d =
     (case processCvParsing job d of
        (Inr res, d') \<Rightarrow> cvParsing_on_completed job res d'
      | (Inl err, d') \<Rightarrow> cvParsing_on_failed (Some job) err d')"

definition coverLetter_on_completed :: "CoverLetterJobData \<Rightarrow> string \<Rightarrow> db \<Rightarrow> error option \<times> db" where
  "coverLetter_on_completed job res d =
     (case jobQueue_update (dbJobId_cl job) ''COMPLETED'' (CoverLetterJson res) d of
        Inl e \<Rightarrow> (Some e, d)
      | Inr d' \<Rightarrow>
          (case application_update_coverLetter (applicationId job) res d' of
             Inl e \<Rightarrow> (Some e, d')
           | Inr d'' \<Rightarrow> (None, d'')))"

definition coverLetter_on_failed :: "CoverLetterJobData option \<Rightarrow> error \<Rightarrow> db \<Rightarrow> error option \<times> db" where
  "coverLetter_on_failed job err d =
     (case job of
        None \<Rightarrow> (None, d)
      | Some j \<Rightarrow>
          (case jobQueue_update (dbJobId_cl j) ''FAILED'' (ErrorJson (message err)) d of
             Inl e \<Rightarrow> (Some e, d)
           | Inr d' \<Rightarrow> (None, d')))"

definition coverLetterWorker :: "CoverLetterJobData \<Rightarrow> db \<Rightarrow> error option \<times> db" where
  "coverLetterWorker job d =
     (case processCoverLetterGeneration job d of
        Inr res \<Rightarrow> coverLetter_on_completed job res d
      | Inl err \<Rightarrow> coverLetter_on_failed (Some job) err d)"

text \<open>The job matching handlers touch the queue row only when the payload names one.\<close>

definition jobMatching_on_completed :: "JobMatchingData \<Rightarrow> JobMatchingResult \<Rightarrow> db \<Rightarrow> error option \<times> db" where
  "jobMatching_on_completed job res d =
     (case present (dbJobId_jm job) of
        None \<Rightarrow> (None, d)
      | Some q \<Rightarrow>
          (case jobQueue_update q ''COMPLETED'' (JobMatchingJson res) d of
             Inl e \<Rightarrow> (Some e, d)
           | Inr d' \<Rightarrow> (None, d')))"

definition jobMatching_on_failed :: "JobMatchingData option \<Rightarrow> error \<Rightarrow> db \<Rightarrow> error option \<times> db" where
  "jobMatching_on_failed job err d =
     (case job of
        None \<Rightarrow> (None, d)
      | Some j \<Rightarrow>
          (case present (dbJobId_jm j) of
             None \<Rightarrow> (None, d)
           | Some q \<Rightarrow>
               (case jobQueue_update q ''FAILED'' (ErrorJson (message err)) d of
                  Inl e \<Rightarrow> (Some e, d)
                | Inr d' \<Rightarrow> (None, d'))))"

definition jobMatchingWorker ::
  "(string \<Rightarrow> string) \<Rightarrow> JobMatchingData \<Rightarrow> db \<Rightarrow> error option \<times> db" where
  "jobMatchingWorker lower job d =
     (case processJobMatching lower job d of
        Inr res \<Rightarrow> jobMatching_on_completed job res d
      | Inl err \<Rightarrow> jobMatching_on_failed (Some job) err d)"

text \<open>The status and the result that the \<open>JobQueue\<close> row of a task carries.\<close>

definition taskStatus :: "db \<Rightarrow> ident \<Rightarrow> string option" where
  "taskStatus d qid = map_option status (jobQueue d qid)"

definition taskResult :: "db \<Rightarrow> ident \<Rightarrow> json option" where
  "taskResult d qid = Option.bind (jobQueue d qid) result"

section \<open>The CV analysis route (\<open>POST /seeker/cv/analyze\<close>)\<close>

text \<open>
  The route is the one place that calls the external analysis service. What the service
  answers is typed \<open>any\<close>, so the values below are the values of JavaScript that a parsed
  JSON body can hold, with \<open>undefined\<close> for a property that is not there. The properties of
  an object are an association list, one entry per key.
\<close>

datatype jsval =
    JUndefined
  | JNull
  | JBool bool
  | JNum rat
  | JStr string
  | JArr "jsval list"
  | JObj "(string \<times> jsval) list"

fun truthy :: "jsval \<Rightarrow> bool" where
  "truthy JUndefined = False"
| "truthy JNull = False"
| "truthy (JBool b) = b"
| "truthy (JNum x) = (x \<noteq> 0)"
| "truthy (JStr s) = (s \<noteq> [])"
| "truthy (JArr xs) = True"
| "truthy (JObj kvs) = True"

text \<open>\<open>a || b\<close> and \<open>a && b\<close>.\<close>

definition orElse :: "jsval \<Rightarrow> jsval \<Rightarrow> jsval" where
  "orElse a b = (if truthy a then a else b)"

definition andAlso :: "jsval \<Rightarrow> jsval \<Rightarrow> jsval" where
  "andAlso a b = (if truthy a then b else a)"

text \<open>
  \<open>data?.key\<close> for a key that no primitive value and no array has, as \<open>parsedText\<close>,
  \<open>extractedSkills\<close> and \<open>skills\<close> are: \<open>undefined\<close> unless \<open>data\<close> is an object with that key.
\<close>

fun getProp :: "jsval \<Rightarrow> string \<Rightarrow> jsval" where
  "getProp (JObj kvs) k = (case map_of kvs k of Some v \<Rightarrow> v | None \<Rightarrow> JUndefined)"
| "getProp v k = JUndefined"

text \<open>
  \<open>x.length\<close> for a value that is neither \<open>null\<close> nor \<open>undefined\<close>: the length of an array
  or a string, the property \<open>length\<close> of an object, and \<open>undefined\<close> for a number or a boolean.
\<close>

fun lengthProp :: "jsval \<Rightarrow> jsval" where
  "lengthProp (JArr xs) = JNum (of_nat (length xs))"
| "lengthProp (JStr s) = JNum (of_nat (length s))"
| "lengthProp v = getProp v ''length''"

text \<open>
  What the outcome of the call leaves in \<open>parsedText\<close> and \<open>extractedSkills\<close>. A rejected
  \<open>fetch\<close> is caught and leaves the initial values; a body that is not JSON is read as the
  empty object.
\<close>

datatype aiOutcome = NetworkError | BodyNotJson | Body jsval

definition fieldsOf :: "jsval \<Rightarrow> jsval \<times> jsval" where
  "fieldsOf data =
     (orElse (andAlso data (getProp data ''parsedText'')) (JStr []),
      (case getProp data ''extractedSkills'' of
         JArr xs \<Rightarrow> JArr xs
       | _ \<Rightarrow> orElse (getProp data ''skills'') (JArr [])))"

text \<open>\<open>None\<close> when \<open>AI_API_URL\<close> or \<open>AI_API_KEY\<close> is not set: the service is not called.\<close>

definition aiFields :: "aiOutcome option \<Rightarrow> jsval \<times> jsval" where
  "aiFields ai =
     (case ai of
        None \<Rightarrow> (JStr [], JArr [])
      | Some NetworkError \<Rightarrow> (JStr [], JArr [])
      | Some BodyNotJson \<Rightarrow> fieldsOf (JObj [])
      | Some (Body data) \<Rightarrow> fieldsOf data)"

text \<open>
  The copy of \<open>extractSkillsFromText\<close> in the routes file has the same vocabulary and reads
  \<open>(text || '').toLowerCase()\<close>: on a truthy value that is not a string the call throws a
  \<open>TypeError\<close>. The wording of the messages of the thrown errors is abbreviated.
\<close>

definition route_extractSkillsFromText :: "jsval \<Rightarrow> error + string list" where
  "route_extractSkillsFromText t =
     (case orElse t (JStr []) of
        JStr s \<Rightarrow> Inr (extractSkillsFromText s)
      | _ \<Rightarrow> Inl (Error ''toLowerCase is not a function''))"

definition fallbackText :: string where
  "fallbackText = ''Parsed CV text not available from AI. Using heuristic extraction.''"

text \<open>
  The block under the comment \<open>Fallback if AI response missing\<close>; \<open>text_v\<close> and \<open>skills_v\<close>
  are the variables \<open>parsedText\<close> and \<open>extractedSkills\<close> of the handler.
\<close>

definition fallback :: "jsval \<Rightarrow> jsval \<Rightarrow> error + jsval \<times> jsval" where
  "fallback text_v skills_v =
     (if \<not> truthy text_v \<or> lengthProp skills_v = JNum 0
      then (let text_v' = orElse text_v (JStr fallbackText)
            in case route_extractSkillsFromText text_v' of
                 Inl e \<Rightarrow> Inl e
               | Inr skills \<Rightarrow> Inr (text_v', JArr (map JStr skills)))
      else Inr (text_v, skills_v))"

text \<open>
  \<open>seekerProfile.update\<close> with \<open>parsedCvText: parsedText\<close>; the persistence client refuses a
  value that is not a string. The value is truthy here, so it is neither \<open>null\<close> nor
  \<open>undefined\<close>.
\<close>

definition persistParsedText :: "ident \<Rightarrow> jsval \<Rightarrow> db \<Rightarrow> error + db" where
  "persistParsedText pid text_v d =
     (case text_v of
        JStr s \<Rightarrow> seekerProfile_update_parsedCvText pid s d
      | _ \<Rightarrow> Inl (Error ''Invalid value for argument parsedCvText''))"

text \<open>
  \<open>for (const skill of extractedSkills)\<close>: an array gives its elements, a string its
  characters, and any other value is not iterable.
\<close>

definition iterate :: "jsval \<Rightarrow> error + jsval list" where
  "iterate v =
     (case v of
        JArr xs \<Rightarrow> Inr xs
      | JStr s \<Rightarrow> Inr (map (\<lambda>c. JStr [c]) s)
      | _ \<Rightarrow> Inl (Error ''extractedSkills is not iterable''))"

text \<open>The loop of the route; the persistence client refuses a name that is not a string.\<close>

fun route_saveSkills :: "ident \<Rightarrow> jsval list \<Rightarrow> db \<Rightarrow> error option \<times> db" where
  "route_saveSkills pid [] d = (None, d)"
| "route_saveSkills pid (v # rest) d =
     (case v of
        JStr skill \<Rightarrow>
          (case seekerSkill_findFirst pid skill d of
             Some existingSkill \<Rightarrow> route_saveSkills pid rest d
           | None \<Rightarrow>
               (case seekerSkill_create pid skill d of
                  Inl e \<Rightarrow> (Some e, d)
                | Inr d' \<Rightarrow> route_saveSkills pid rest d'))
      | _ \<Rightarrow> (Some (Error ''Invalid value for argument name''), d))"

text \<open>
  The answer of the route: \<open>res.json({ parsedText, extractedSkills })\<close>, or a status code
  with \<open>{ message }\<close>. An error thrown anywhere in the handler is answered with status 500
  and its message; what was written before it stays.
\<close>

datatype httpResponse = Json200 jsval jsval | ErrorStatus nat string

definition analyzeCv :: "aiOutcome option \<Rightarrow> ident \<Rightarrow> db \<Rightarrow> httpResponse \<times> db" where
  "analyzeCv ai userId d =
     (case seekerProfile_findByUser userId d of
        None \<Rightarrow> (ErrorStatus 404 ''Seeker profile not found'', d)
      | Some (seekerId, seeker) \<Rightarrow>
          (case present (profileCvUrl seeker) of
             None \<Rightarrow> (ErrorStatus 400 ''No CV uploaded'', d)
           | Some cv \<Rightarrow>
               (case fallback (fst (aiFields ai)) (snd (aiFields ai)) of
                  Inl e \<Rightarrow> (ErrorStatus 500 (message e), d)
                | Inr (text_v, skills_v) \<Rightarrow>
                    (case persistParsedText seekerId text_v d of
                       Inl e \<Rightarrow> (ErrorStatus 500 (message e), d)
                     | Inr d1 \<Rightarrow>
                         (case iterate skills_v of
                            Inl e \<Rightarrow> (ErrorStatus 500 (message e), d1)
                          | Inr skills \<Rightarrow>
                              (case route_saveSkills seekerId skills d1 of
                                 (Some e, d2) \<Rightarrow> (ErrorStatus 500 (message e), d2)
                               | (None, d2) \<Rightarrow> (Json200 text_v skills_v, d2)))))))"

section \<open>Example data\<close>

definition ex_profile :: seekerProfile where
  "ex_profile = \<lparr>firstName = ''Ada'', lastName = ''Lovelace'', email = ''ada@example.org'',
                  profileCvUrl = Some ''/uploads/ada.pdf'', parsedCvText = None\<rparr>"

definition ex_job :: jobPosting where
  "ex_job = \<lparr>title = ''Engineer'', description = Some ''Builds things'', requirements = None,
              employerCompanyName = None, tags = [''React'', ''AWS'']\<rparr>"

definition ex_db :: db where
  "ex_db = \<lparr>seekerProfiles = [''p1'' \<mapsto> ex_profile],
             seekerProfileOfUser = [''u1'' \<mapsto> ''p1''],
             seekerSkill = [(''p1'', ''react'')],
             jobPostings = [(''j1'', ex_job)],
             jobQueue = [''q1'' \<mapsto> \<lparr>status = ''PENDING'', result = None\<rparr>],
             applications = [''a1'' \<mapsto> []]\<rparr>"

definition ex_cv :: CvParsingJobData where
  "ex_cv = \<lparr>seekerProfileId = ''p1'', cvUrl = ''/uploads/ada.pdf'', dbJobId = ''q1''\<rparr>"

definition ex_cv_stale :: CvParsingJobData where
  "ex_cv_stale = \<lparr>seekerProfileId = ''p0'', cvUrl = ''/uploads/old.pdf'', dbJobId = ''q1''\<rparr>"

definition ex_jm_stale :: JobMatchingData where
  "ex_jm_stale = \<lparr>seekerProfileId_jm = ''p0'', jobPostingId_jm = Some ''j1'', dbJobId_jm = Some ''q1''\<rparr>"

definition ex_cl :: CoverLetterJobData where
  "ex_cl = \<lparr>applicationId = ''a1'', seekerProfileId_cl = ''p1'', jobPostingId = ''j1'',
             dbJobId_cl = ''q1''\<rparr>"

definition ex_cl_stale :: CoverLetterJobData where
  "ex_cl_stale = \<lparr>applicationId = ''a1'', seekerProfileId_cl = ''p1'', jobPostingId = ''j0'',
             dbJobId_cl = ''q1''\<rparr>"

text \<open>A job with forty tags, and a seeker who has the first twenty-three of them.\<close>

definition ex_tags40 :: "string list" where
  "ex_tags40 =
    [''javascript'', ''typescript'', ''react'', ''node'', ''express'', ''mongodb'', ''sql'',
     ''python'', ''java'', ''c#'', ''c++'', ''php'', ''ruby'', ''go'', ''rust'', ''swift'',
     ''html'', ''css'', ''sass'', ''less'', ''tailwind'', ''bootstrap'', ''material-ui'',
     ''aws'', ''azure'', ''gcp'', ''docker'', ''kubernetes'', ''jenkins'', ''git'', ''github'',
     ''gitlab'', ''bitbucket'', ''jira'', ''agile'', ''scrum'', ''kanban'', ''devops'',
     ''ci/cd'', ''testing'']"




text \<open>A requirements text that names the first twenty-three of the forty skills.\<close>

definition ex_requirements :: string where
  "ex_requirements =
     ''JavaScript, TypeScript, React, Node, Express, MongoDB, SQL, Python, Java, C#, C++, PHP, '' @
     ''Ruby, Go, Rust, Swift, HTML, CSS, Sass, Less, Tailwind, Bootstrap, Material-UI''"

text \<open>
  Two jobs for the seeker of \<open>ex_db\<close>, whose only skill is \<open>react\<close>: the first has thirteen
  tags, the second twelve, and \<open>react\<close> is among both.
\<close>

definition ex_job13 :: "ident \<times> jobPosting" where
  "ex_job13 = (''j13'', \<lparr>title = ''Frontend developer'', description = None, requirements = None,
                 employerCompanyName = Some ''Acme'',
                 tags = [''React'', ''TypeScript'', ''CSS'', ''HTML'', ''Redux'', ''Jest'', ''Webpack'',
                         ''Node'', ''GraphQL'', ''Docker'', ''AWS'', ''Git'', ''Agile'']\<rparr>)"

definition ex_job12 :: "ident \<times> jobPosting" where
  "ex_job12 = (''j12'', \<lparr>title = ''UI engineer'', description = None, requirements = None,
                 employerCompanyName = None,
                 tags = [''React'', ''Vue'', ''Angular'', ''Svelte'', ''Sass'', ''Less'', ''Babel'',
                         ''Vite'', ''Cypress'', ''Figma'', ''Jira'', ''Scrum'']\<rparr>)"

definition ex_db_rank :: db where
  "ex_db_rank = ex_db\<lparr>jobPostings := [ex_job13, ex_job12]\<rparr>"

text \<open>
  Answers of the analysis service: a body whose \<open>parsedText\<close> is a number, and a body whose
  \<open>skills\<close> is a number.
\<close>

definition ex_body_text_number :: jsval where
  "ex_body_text_number = JObj [(''parsedText'', JNum 42)]"

definition ex_body_skills_number :: jsval where
  "ex_body_skills_number = JObj [(''parsedText'', JStr ''Senior React developer''), (''skills'', JNum 5)]"

section \<open>Rounding to a double\<close>

lemma bitlen_bounds: "0 < n \<Longrightarrow> 2 ^ (bitlen n - 1) \<le> n \<and> n < 2 ^ bitlen n"
proof (induction n rule: bitlen.induct)
  case (1 n)
  show ?case
  proof (cases "n div 2 = 0")
    case True
    with 1 have "n = 1" by auto
    then show ?thesis by (simp add: bitlen.simps)
  next
    case False
    then have "0 < n div 2" by simp
    with 1 have ih: "2 ^ (bitlen (n div 2) - 1) \<le> n div 2" "n div 2 < 2 ^ bitlen (n div 2)"
      by auto
    have b: "bitlen n = Suc (bitlen (n div 2))" using 1 by (subst bitlen.simps) simp
    have p: "0 < bitlen (n div 2)" using False by (subst bitlen.simps) simp
    then have "(2::nat) ^ bitlen (n div 2) = 2 * 2 ^ (bitlen (n div 2) - 1)"
      by (cases "bitlen (n div 2)") simp_all
    then have "(2::nat) ^ bitlen (n div 2) \<le> n" using ih(1) by simp
    moreover have "n < 2 * 2 ^ bitlen (n div 2)" using ih(2) by simp
    ultimately show ?thesis by (simp add: b)
  qed
qed

lemma bitlen_pos: "0 < n \<Longrightarrow> 0 < bitlen n"
  by (subst bitlen.simps) simp

lemma pow2_le_of_nat: "(2::nat) ^ a \<le> k \<Longrightarrow> (2::rat) ^ a \<le> of_nat k"
proof -
  assume "(2::nat) ^ a \<le> k"
  then have "(of_nat (2 ^ a) :: rat) \<le> of_nat k" by (simp only: of_nat_le_iff)
  then show ?thesis by simp
qed

lemma of_nat_Suc_le_pow2: "k < (2::nat) ^ a \<Longrightarrow> (of_nat k :: rat) + 1 \<le> 2 ^ a"
proof -
  assume "k < (2::nat) ^ a"
  then have "Suc k \<le> 2 ^ a" by simp
  then have "(of_nat (Suc k) :: rat) \<le> of_nat (2 ^ a)" by (simp only: of_nat_le_iff)
  then show ?thesis by simp
qed

lemma ilog2_bounds:
  assumes "0 < x"
  shows "2 powi (ilog2 x) \<le> x" and "x < 2 powi (ilog2 x + 1)"
proof -
  have "2 powi (ilog2 x) \<le> x \<and> x < 2 powi (ilog2 x + 1)"
  proof (cases "1 \<le> x")
    case True
    define k where "k = nat \<lfloor>x\<rfloor>"
    have k: "0 < k" using True by (simp add: k_def)
    have kx: "of_nat k \<le> x" "x < of_nat k + 1" using True by (simp_all add: k_def; linarith)+
    from bitlen_bounds [OF k] have b: "2 ^ (bitlen k - 1) \<le> k" "k < 2 ^ bitlen k" by auto
    have e: "ilog2 x = int (bitlen k - 1)" using True bitlen_pos [OF k] by (simp add: ilog2_def k_def)
    have e1: "ilog2 x + 1 = int (bitlen k)" using e bitlen_pos [OF k] by simp
    have p: "2 powi (ilog2 x) = (2::rat) ^ (bitlen k - 1)" by (simp only: e power_int_of_nat)
    have p1: "2 powi (ilog2 x + 1) = (2::rat) ^ bitlen k" by (simp only: e1 power_int_of_nat)
    have A: "(2::rat) ^ (bitlen k - 1) \<le> x"
      using pow2_le_of_nat [OF b(1)] kx(1) by (rule order_trans)
    have B: "x < (2::rat) ^ bitlen k"
      using kx(2) of_nat_Suc_le_pow2 [OF b(2)] by (rule less_le_trans)
    show ?thesis unfolding p p1 using A B by (rule conjI)
  next
    case False
    then have x1: "x < 1" by simp
    define y where "y = 1 / x"
    have y1: "1 < y" using assms x1 by (simp add: y_def)
    have xy: "x = 1 / y" by (simp add: y_def)
    have y0: "0 < y" using y1 by simp
    define k where "k = nat (\<lceil>y\<rceil> - 1)"
    have c2: "2 \<le> \<lceil>y\<rceil>" using y1 by linarith
    have k: "0 < k" using c2 by (simp add: k_def)
    have ky: "of_nat k < y" "y \<le> of_nat k + 1" using c2 by (simp_all add: k_def; linarith)+
    from bitlen_bounds [OF k] have b: "2 ^ (bitlen k - 1) \<le> k" "k < 2 ^ bitlen k" by auto
    have e: "ilog2 x = - int (bitlen k)" using False by (simp add: ilog2_def k_def y_def)
    have e1: "ilog2 x + 1 = - int (bitlen k - 1)" using e bitlen_pos [OF k] by simp
    have p: "2 powi (ilog2 x) = 1 / (2::rat) ^ bitlen k"
      by (simp only: e power_int_minus_divide power_int_of_nat)
    have p1: "2 powi (ilog2 x + 1) = 1 / (2::rat) ^ (bitlen k - 1)"
      by (simp only: e1 power_int_minus_divide power_int_of_nat)
    have lo: "(2::rat) ^ (bitlen k - 1) < y"
      using pow2_le_of_nat [OF b(1)] ky(1) by (rule le_less_trans)
    have hi: "y \<le> (2::rat) ^ bitlen k"
      using ky(2) of_nat_Suc_le_pow2 [OF b(2)] by (rule order_trans)
    have A: "1 / (2::rat) ^ bitlen k \<le> x"
      unfolding xy using hi y0 by (intro divide_left_mono) simp_all
    have B: "x < 1 / (2::rat) ^ (bitlen k - 1)"
      unfolding xy using lo y0 by (intro divide_strict_left_mono) simp_all
    show ?thesis unfolding p p1 using A B by (rule conjI)
  qed
  then show "2 powi (ilog2 x) \<le> x" and "x < 2 powi (ilog2 x + 1)" by simp_all
qed


lemma round_even_cases:
  "round_even z = \<lfloor>z\<rfloor> \<or> round_even z = \<lfloor>z\<rfloor> + 1"
  by (simp add: round_even_def Let_def)

lemma round_even_error: "\<bar>of_int (round_even z) - z\<bar> \<le> 1 / 2"
proof -
  have "of_int \<lfloor>z\<rfloor> \<le> z" "z < of_int \<lfloor>z\<rfloor> + 1" by linarith+
  then show ?thesis
    by (auto simp: round_even_def Let_def abs_le_iff)
qed

lemma round_even_of_int [simp]: "round_even (of_int k) = k"
  by (simp add: round_even_def)

lemma round_even_le_int: "z \<le> of_int k \<Longrightarrow> round_even z \<le> k"
proof -
  assume a: "z \<le> of_int k"
  show ?thesis
  proof (cases "z = of_int k")
    case True
    then show ?thesis by simp
  next
    case False
    with a have "z < of_int k" by simp
    then have "\<lfloor>z\<rfloor> < k" by (simp add: floor_less_iff)
    then show ?thesis using round_even_cases [of z] by auto
  qed
qed

lemma round_even_ge_int: "of_int k \<le> z \<Longrightarrow> k \<le> round_even z"
proof -
  assume "of_int k \<le> z"
  then have "k \<le> \<lfloor>z\<rfloor>" by (simp add: le_floor_iff)
  then show ?thesis using round_even_cases [of z] by auto
qed

lemma round_even_mono: "z \<le> w \<Longrightarrow> round_even z \<le> round_even w"
proof -
  assume zw: "z \<le> w"
  have fz: "of_int \<lfloor>z\<rfloor> \<le> z" "z < of_int \<lfloor>z\<rfloor> + 1" by linarith+
  have fw: "of_int \<lfloor>w\<rfloor> \<le> w" "w < of_int \<lfloor>w\<rfloor> + 1" by linarith+
  have le: "\<lfloor>z\<rfloor> \<le> \<lfloor>w\<rfloor>" using zw by (rule floor_mono)
  show ?thesis
  proof (cases "\<lfloor>z\<rfloor> = \<lfloor>w\<rfloor>")
    case True
    then show ?thesis using zw by (auto simp: round_even_def Let_def)
  next
    case False
    with le have "\<lfloor>z\<rfloor> + 1 \<le> \<lfloor>w\<rfloor>" by simp
    moreover have "round_even z \<le> \<lfloor>z\<rfloor> + 1" using round_even_cases [of z] by auto
    moreover have "\<lfloor>w\<rfloor> \<le> round_even w" using round_even_cases [of w] by auto
    ultimately show ?thesis by linarith
  qed
qed


lemma ulp_pos: "0 < ulp a"
  by (simp add: ulp_def)

lemma fl64_pos: "0 < x \<Longrightarrow> fl64 x = of_int (round_even (x / ulp x)) * ulp x"
  by (simp add: fl64_def)

lemma fl64_nonneg: "0 \<le> x \<Longrightarrow> 0 \<le> fl64 x"
proof (cases "x = 0")
  case True
  then show ?thesis by (simp add: fl64_def)
next
  case False
  assume "0 \<le> x"
  with False have x: "0 < x" by simp
  have "of_int 0 \<le> x / ulp x" using x ulp_pos [of x] by simp
  then have "0 \<le> round_even (x / ulp x)" by (rule round_even_ge_int)
  then show ?thesis using ulp_pos [of x] by (simp add: fl64_pos [OF x])
qed

lemma fl64_error:
  assumes "0 < x"
  shows "\<bar>fl64 x - x\<bar> \<le> ulp x / 2"
proof -
  let ?q = "ulp x"
  have q: "0 < ?q" by (rule ulp_pos)
  have "fl64 x - x = (of_int (round_even (x / ?q)) - x / ?q) * ?q"
    using q by (simp add: fl64_pos [OF assms] algebra_simps)
  then have "\<bar>fl64 x - x\<bar> = \<bar>of_int (round_even (x / ?q)) - x / ?q\<bar> * ?q"
    using q by (simp add: abs_mult)
  also have "\<dots> \<le> (1 / 2) * ?q"
    using round_even_error [of "x / ?q"] q by (intro mult_right_mono) simp_all
  finally show ?thesis by simp
qed

lemma pow2_less_imp_less: "(2::rat) powi a < 2 powi b \<Longrightarrow> a < b"
proof (rule ccontr)
  assume l: "(2::rat) powi a < 2 powi b" and "\<not> a < b"
  then have "b \<le> a" by simp
  then have "(2::rat) powi b \<le> 2 powi a" by (rule power_int_increasing) simp
  with l show False by simp
qed

lemma ilog2_mono:
  assumes "0 < x" "x \<le> y"
  shows "ilog2 x \<le> ilog2 y"
proof -
  have y: "0 < y" using assms by simp
  have "(2::rat) powi (ilog2 x) < 2 powi (ilog2 y + 1)"
    using ilog2_bounds(1) [OF assms(1)] assms(2) ilog2_bounds(2) [OF y] by linarith
  then have "ilog2 x < ilog2 y + 1"
    by (rule pow2_less_imp_less)
  then show ?thesis by simp
qed

lemma ilog2_ge:
  assumes "2 powi e \<le> x"
  shows "e \<le> ilog2 x"
proof -
  have x: "0 < x" using assms by (rule less_le_trans [rotated]) simp
  have "(2::rat) powi e < 2 powi (ilog2 x + 1)"
    using assms ilog2_bounds(2) [OF x] by linarith
  then have "e < ilog2 x + 1"
    by (rule pow2_less_imp_less)
  then show ?thesis by simp
qed

lemma pow2_add: "(2::rat) powi (a + b) = 2 powi a * 2 powi b"
  by (rule power_int_add) simp

lemma ulp_normal:
  assumes "2 powi (- 1022) \<le> x"
  shows "ulp x \<le> x * 2 powi (- 52)"
proof -
  have x: "0 < x" using assms by (rule less_le_trans [rotated]) simp
  have "- 1022 \<le> ilog2 x" using assms by (rule ilog2_ge)
  then have "ulp x = 2 powi (ilog2 x + (- 52))"
    by (simp add: ulp_def max_def)
  also have "\<dots> = 2 powi (ilog2 x) * 2 powi (- 52)"
    by (rule pow2_add)
  also have "\<dots> \<le> x * 2 powi (- 52)"
    using ilog2_bounds(1) [OF x] by (intro mult_right_mono) simp_all
  finally show ?thesis .
qed


lemma ulp_eq: "ulp x = 2 powi (max (ilog2 x) (- 1022)) * 2 powi (- 52)"
proof -
  have "ulp x = 2 powi (max (ilog2 x) (- 1022) + (- 52))" by (simp add: ulp_def)
  then show ?thesis by (simp only: pow2_add)
qed

lemma fl64_upper:
  assumes "0 < x"
  shows "fl64 x \<le> 2 powi (max (ilog2 x) (- 1022) + 1)"
proof -
  let ?E = "max (ilog2 x) (- 1022)"
  have q: "0 < ulp x" by (rule ulp_pos)
  have s: "(2::rat) powi (?E + 1) = of_int (2 ^ 53) * ulp x"
  proof -
    have "(2::rat) powi (?E + 1) = 2 powi ((?E - 52) + 53)"
      by (rule arg_cong [where f = "power_int 2"]) simp
    also have "\<dots> = 2 powi (?E - 52) * 2 powi 53" by (rule pow2_add)
    finally show ?thesis by (simp add: ulp_def)
  qed
  have "x < 2 powi (ilog2 x + 1)" using assms by (rule ilog2_bounds)
  also have "\<dots> \<le> 2 powi (?E + 1)" by (rule power_int_increasing) simp_all
  finally have "x \<le> of_int (2 ^ 53) * ulp x" unfolding s by simp
  then have "x / ulp x \<le> of_int (2 ^ 53)" using q by (simp add: pos_divide_le_eq)
  then have "round_even (x / ulp x) \<le> 2 ^ 53" by (rule round_even_le_int)
  then have "(of_int (round_even (x / ulp x)) :: rat) \<le> of_int (2 ^ 53)" by (simp only: of_int_le_iff)
  then have "of_int (round_even (x / ulp x)) * ulp x \<le> of_int (2 ^ 53) * ulp x"
    using q by (intro mult_right_mono) simp_all
  then show ?thesis unfolding s fl64_pos [OF assms] .
qed

lemma fl64_lower:
  assumes "0 < y" "- 1022 \<le> ilog2 y"
  shows "2 powi (ilog2 y) \<le> fl64 y"
proof -
  have q: "0 < ulp y" by (rule ulp_pos)
  have u: "ulp y = 2 powi (ilog2 y - 52)" using assms(2) by (simp add: ulp_def max_def)
  have s: "(2::rat) powi (ilog2 y) = of_int (2 ^ 52) * ulp y"
  proof -
    have "(2::rat) powi (ilog2 y) = 2 powi ((ilog2 y - 52) + 52)"
      by (rule arg_cong [where f = "power_int 2"]) simp
    also have "\<dots> = 2 powi (ilog2 y - 52) * 2 powi 52" by (rule pow2_add)
    finally show ?thesis by (simp add: u)
  qed
  have "of_int (2 ^ 52) * ulp y \<le> y" using ilog2_bounds(1) [OF assms(1)] unfolding s .
  then have "of_int (2 ^ 52) \<le> y / ulp y" using q by (simp add: pos_le_divide_eq)
  then have "2 ^ 52 \<le> round_even (y / ulp y)" by (rule round_even_ge_int)
  then have "(of_int (2 ^ 52) :: rat) \<le> of_int (round_even (y / ulp y))" by (simp only: of_int_le_iff)
  then have "of_int (2 ^ 52) * ulp y \<le> of_int (round_even (y / ulp y)) * ulp y"
    using q by (intro mult_right_mono) simp_all
  then show ?thesis unfolding s fl64_pos [OF assms(1)] .
qed

lemma fl64_mono:
  assumes "0 < x" "x \<le> y"
  shows "fl64 x \<le> fl64 y"
proof -
  have y: "0 < y" using assms by simp
  let ?Ex = "max (ilog2 x) (- 1022)" and ?Ey = "max (ilog2 y) (- 1022)"
  have il: "ilog2 x \<le> ilog2 y" using assms by (rule ilog2_mono)
  then have le: "?Ex \<le> ?Ey" by simp
  show ?thesis
  proof (cases "?Ex = ?Ey")
    case True
    then have u: "ulp x = ulp y" by (simp add: ulp_def)
    have q: "0 < ulp y" by (rule ulp_pos)
    have "x / ulp y \<le> y / ulp y" using assms(2) q by (simp add: divide_right_mono)
    then have "round_even (x / ulp y) \<le> round_even (y / ulp y)" by (rule round_even_mono)
    then have "(of_int (round_even (x / ulp y)) :: rat) \<le> of_int (round_even (y / ulp y))"
      by (simp only: of_int_le_iff)
    then have "of_int (round_even (x / ulp y)) * ulp y \<le> of_int (round_even (y / ulp y)) * ulp y"
      using q by (intro mult_right_mono) simp_all
    then show ?thesis unfolding fl64_pos [OF assms(1)] fl64_pos [OF y] u .
  next
    case False
    have lt: "?Ex < ?Ey" using le False by (rule le_neq_trans)
    have "- 1022 \<le> ?Ex" by simp
    then have "- 1022 < ?Ey" using lt by (rule le_less_trans)
    then have n: "- 1022 \<le> ilog2 y" and e: "?Ey = ilog2 y" by (simp_all add: max_def split: if_splits)
    have "fl64 x \<le> 2 powi (?Ex + 1)" using assms(1) by (rule fl64_upper)
    also have "\<dots> \<le> 2 powi (ilog2 y)"
    proof (rule power_int_increasing)
      show "?Ex + 1 \<le> ilog2 y" using lt e by linarith
    qed simp
    also have "\<dots> \<le> fl64 y" using y n by (rule fl64_lower)
    finally show ?thesis .
  qed
qed

lemma fl64_1: "fl64 1 = 1"
  by code_simp

lemma fl64_100: "fl64 100 = 100"
  by code_simp

lemma fl64_0: "fl64 0 = 0"
  by (simp add: fl64_def)

lemma js_div_range:
  assumes "m \<le> n" "0 < n"
  shows "0 \<le> js_div (of_nat m) (of_nat n)" and "js_div (of_nat m) (of_nat n) \<le> 1"
proof -
  let ?x = "(of_nat m :: rat) / of_nat n"
  have x0: "0 \<le> ?x" by simp
  have x1: "?x \<le> 1" using assms by (simp add: divide_le_eq_1)
  show "0 \<le> js_div (of_nat m) (of_nat n)" unfolding js_div_def using x0 by (rule fl64_nonneg)
  show "js_div (of_nat m) (of_nat n) \<le> 1"
  proof (cases "?x = 0")
    case True
    show ?thesis unfolding js_div_def True fl64_0 by simp
  next
    case False
    with x0 have "0 < ?x" by simp
    then have "fl64 ?x \<le> fl64 1" using x1 by (rule fl64_mono)
    then show ?thesis by (simp add: js_div_def fl64_1)
  qed
qed

lemma percent_range:
  assumes "m \<le> n" "0 < n"
  shows "0 \<le> percent m n" and "percent m n \<le> 100"
proof -
  let ?a = "js_div (of_nat m) (of_nat n)"
  have a: "0 \<le> ?a" "?a \<le> 1" using assms by (rule js_div_range)+
  then have p0: "0 \<le> ?a * 100" and p1: "?a * 100 \<le> 100" by simp_all
  show "0 \<le> percent m n" unfolding percent_def js_mul_def using p0 by (rule fl64_nonneg)
  show "percent m n \<le> 100"
  proof (cases "?a * 100 = 0")
    case True
    show ?thesis unfolding percent_def js_mul_def True fl64_0 by simp
  next
    case False
    with p0 have "0 < ?a * 100" by simp
    then have "fl64 (?a * 100) \<le> fl64 100" using p1 by (rule fl64_mono)
    then show ?thesis by (simp add: percent_def js_mul_def fl64_100)
  qed
qed


lemma fl64_rel_error:
  assumes "2 powi (- 1022) \<le> x"
  shows "\<bar>fl64 x - x\<bar> \<le> x * (2 powi (- 52) / 2)"
proof -
  have x: "0 < x" using assms by (rule less_le_trans [rotated]) simp
  have "\<bar>fl64 x - x\<bar> \<le> ulp x / 2" using x by (rule fl64_error)
  also have "\<dots> \<le> (x * 2 powi (- 52)) / 2"
    using ulp_normal [OF assms] by (rule divide_right_mono) simp
  finally show ?thesis by simp
qed

lemma percent_error:
  assumes "0 < m" "m \<le> n" "n < 2 ^ 32"
  shows "\<bar>percent m n - 100 * of_nat m / of_nat n\<bar> \<le> 100 * 2 powi (- 52)"
proof -
  define x :: rat where "x = of_nat m / of_nat n"
  define d :: rat where "d = 2 powi (- 52) / 2"
  define a where "a = fl64 x"
  define b where "b = fl64 (a * 100)"
  have n0: "0 < n" using assms by simp
  have d0: "0 < d" "d \<le> 1 / 2" by (simp_all add: d_def)
  have x1: "x \<le> 1" using assms n0 by (simp add: x_def divide_le_eq_1)
  have "(of_nat n :: rat) \<le> of_nat (2 ^ 32)" using assms(3) by (simp only: of_nat_le_iff)
  then have nle: "(of_nat n :: rat) \<le> 2 ^ 32" by simp
  have "1 / (2::rat) ^ 32 \<le> 1 / of_nat n"
    using nle n0 by (intro divide_left_mono) simp_all
  also have "\<dots> \<le> x"
    unfolding x_def using assms(1) n0 by (intro divide_right_mono) simp_all
  finally have xlo: "1 / (2::rat) ^ 32 \<le> x" .
  have small: "(2::rat) powi (- 1022) \<le> 1 / 2 ^ 32"
  proof -
    have "(2::rat) powi (- 1022) \<le> 2 powi (- 32)" by (rule power_int_increasing) simp_all
    then show ?thesis by (simp add: power_int_minus_divide)
  qed
  have xn: "2 powi (- 1022) \<le> x" using small xlo by (rule order_trans)
  have x0: "0 < x" using xlo by (rule less_le_trans [rotated]) simp
  have e1: "\<bar>a - x\<bar> \<le> x * d" unfolding a_def d_def using xn by (rule fl64_rel_error)
  have "x * d \<le> 1 * d" using x1 d0 by (intro mult_right_mono) simp_all
  then have xd: "x * d \<le> d" by simp
  have "x * d \<le> x * (1 / 2)" using x0 d0 by (intro mult_left_mono) simp_all
  then have xh: "x * d \<le> x / 2" by simp
  have alo: "x / 2 \<le> a" using e1 xh by (simp add: abs_le_iff)
  have a1: "a \<le> 1" using js_div_range(2) [OF assms(2) n0] by (simp add: a_def x_def js_div_def)
  have "1 / (2::rat) ^ 32 \<le> x / 2 * 100" using xlo by simp
  also have "\<dots> \<le> a * 100" using alo by simp
  finally have "1 / (2::rat) ^ 32 \<le> a * 100" .
  with small have an: "2 powi (- 1022) \<le> a * 100" by (rule order_trans)
  have e2: "\<bar>b - a * 100\<bar> \<le> a * 100 * d" unfolding b_def d_def using an by (rule fl64_rel_error)
  have "a * 100 * d \<le> 1 * 100 * d" using a1 d0 by (intro mult_right_mono) simp_all
  then have ad: "a * 100 * d \<le> 100 * d" by simp
  have "\<bar>b - 100 * x\<bar> \<le> 200 * d"
    using e1 e2 xd ad by (simp add: abs_le_iff)
  moreover have "b = percent m n" by (simp add: b_def a_def x_def percent_def js_mul_def js_div_def)
  moreover have "200 * d = 100 * 2 powi (- 52)" by (simp add: d_def)
  ultimately show ?thesis by (simp add: x_def)
qed

lemma round_stable:
  fixes t :: rat and N D :: int
  assumes D: "0 < D" and close: "\<bar>t - of_int N / of_int D\<bar> < 1 / of_int D"
  shows "N div D - 1 \<le> \<lfloor>t\<rfloor>" and "\<lfloor>t\<rfloor> \<le> N div D" and "\<not> D dvd N \<Longrightarrow> \<lfloor>t\<rfloor> = N div D"
proof -
  define R where "R = N div D"
  define s where "s = N mod D"
  define u :: rat where "u = 1 / of_int D"
  have u: "0 < u" using D by (simp add: u_def)
  have Du: "of_int D * u = 1" using D by (simp add: u_def)
  have s: "0 \<le> s" "s \<le> D - 1" using D by (simp_all add: s_def)
  have "N = D * R + s" by (simp add: R_def s_def)
  then have "(of_int N :: rat) = of_int D * of_int R + of_int s" by (simp only: of_int_add of_int_mult)
  then have "(of_int N :: rat) * u = (of_int D * u) * of_int R + of_int s * u"
    by (simp add: algebra_simps)
  then have q: "(of_int N :: rat) / of_int D = of_int R + of_int s * u"
    by (simp add: Du) (simp add: u_def)
  have "(of_int s :: rat) \<le> of_int (D - 1)" using s(2) by (simp only: of_int_le_iff)
  then have "(of_int s :: rat) * u \<le> of_int (D - 1) * u" using u by (intro mult_right_mono) simp_all
  also have "\<dots> = 1 - u" using Du by (simp add: algebra_simps)
  finally have su1: "(of_int s :: rat) * u \<le> 1 - u" .
  have su0: "0 \<le> (of_int s :: rat) * u" using s(1) u by simp
  have c: "t < of_int R + of_int s * u + u" "of_int R + of_int s * u - u < t"
    using close unfolding q u_def [symmetric] by (simp_all add: abs_less_iff)
  have "t < of_int (R + 1)" using c(1) su1 by simp
  then have "\<lfloor>t\<rfloor> < R + 1" by (simp only: floor_less_iff)
  then show hi: "\<lfloor>t\<rfloor> \<le> N div D" by (simp add: R_def)
  have "u \<le> 1"
  proof -
    have "(of_int 1 :: rat) \<le> of_int D" using D by (simp only: of_int_le_iff)
    then show ?thesis using D by (simp add: u_def)
  qed
  then have "of_int (R - 1) \<le> t" using c(2) su0 by simp
  then have "R - 1 \<le> \<lfloor>t\<rfloor>" by (simp only: le_floor_iff)
  then show "N div D - 1 \<le> \<lfloor>t\<rfloor>" by (simp add: R_def)
  show "\<lfloor>t\<rfloor> = N div D" if "\<not> D dvd N"
  proof -
    from that have "s \<noteq> 0" by (simp add: s_def dvd_eq_mod_eq_0)
    with s(1) have "1 \<le> s" by simp
    then have "(of_int 1 :: rat) \<le> of_int s" by (simp only: of_int_le_iff)
    then have "of_int 1 * u \<le> (of_int s :: rat) * u" using u by (intro mult_right_mono) simp_all
    then have "of_int R \<le> t" using c(2) by simp
    then have "R \<le> \<lfloor>t\<rfloor>" by (simp only: le_floor_iff)
    with hi show ?thesis by (simp add: R_def)
  qed
qed

lemma Math_round_exact: "0 < n \<Longrightarrow> Math_round (100 * of_nat m / of_nat n) = (200 * int m + int n) div (2 * int n)"
proof -
  assume n: "0 < n"
  have "100 * (of_nat m :: rat) / of_nat n + 1 / 2 = of_int (200 * int m + int n) / of_int (2 * int n)"
    using n by (simp add: field_simps)
  then show ?thesis by (simp only: Math_round_def floor_divide_of_int_eq)
qed

lemma Math_round_percent:
  assumes "m \<le> n" "0 < n" "n < 2 ^ 32"
  shows "Math_round (100 * of_nat m / of_nat n) - 1 \<le> Math_round (percent m n)"
    and "Math_round (percent m n) \<le> Math_round (100 * of_nat m / of_nat n)"
    and "\<not> 2 * n dvd 200 * m + n \<Longrightarrow>
           Math_round (percent m n) = Math_round (100 * of_nat m / of_nat n)"
proof -
  let ?N = "200 * int m + int n" and ?D = "2 * int n"
  let ?t = "percent m n + 1 / 2"
  have D: "0 < ?D" using assms by simp
  have q: "of_int ?N / of_int ?D = 100 * (of_nat m :: rat) / of_nat n + 1 / 2"
    using assms by (simp add: field_simps)
  have err: "\<bar>percent m n - 100 * of_nat m / of_nat n\<bar> \<le> 100 * 2 powi (- 52)"
  proof (cases "m = 0")
    case True
    then show ?thesis by (simp add: percent_def js_div_def js_mul_def fl64_0)
  next
    case False
    then have "0 < m" by simp
    then show ?thesis using assms(1,3) by (rule percent_error)
  qed
  have "(of_nat n :: rat) < of_nat (2 ^ 32)" using assms(3) by (simp only: of_nat_less_iff)
  then have "(of_int ?D :: rat) < 2 ^ 33" by simp
  then have "1 / (2::rat) ^ 33 < 1 / of_int ?D"
    using D by (intro divide_strict_left_mono) simp_all
  moreover have "100 * (2::rat) powi (- 52) < 1 / 2 ^ 33" by (simp add: power_int_minus_divide)
  ultimately have "\<bar>percent m n - 100 * of_nat m / of_nat n\<bar> < 1 / of_int ?D"
    using err by linarith
  then have close: "\<bar>?t - of_int ?N / of_int ?D\<bar> < 1 / of_int ?D"
    unfolding q by simp
  note r = round_stable [OF D close]
  have ex: "Math_round (100 * of_nat m / of_nat n) = ?N div ?D"
    using assms(2) by (rule Math_round_exact)
  show "Math_round (100 * of_nat m / of_nat n) - 1 \<le> Math_round (percent m n)"
    unfolding ex using r(1) by (simp add: Math_round_def)
  show "Math_round (percent m n) \<le> Math_round (100 * of_nat m / of_nat n)"
    unfolding ex using r(2) by (simp add: Math_round_def)
  show "Math_round (percent m n) = Math_round (100 * of_nat m / of_nat n)"
    if "\<not> 2 * n dvd 200 * m + n"
  proof -
    have "\<not> ?D dvd ?N"
    proof
      assume "?D dvd ?N"
      then have "int (2 * n) dvd int (200 * m + n)" by simp
      then have "2 * n dvd 200 * m + n" by (simp only: int_dvd_int_iff)
      with that show False by simp
    qed
    then show ?thesis unfolding ex using r(3) by (simp add: Math_round_def)
  qed
qed

lemma Math_round_percent_tie:
  assumes "m \<le> n" "0 < n" "n < 2 ^ 32" "2 * n dvd 200 * m + n"
  shows "Math_round (percent m n) =
           (if percent m n < 100 * of_nat m / of_nat n
            then Math_round (100 * of_nat m / of_nat n) - 1
            else Math_round (100 * of_nat m / of_nat n))"
proof -
  define X :: rat where "X = 100 * of_nat m / of_nat n"
  define R where "R = Math_round X"
  from assms(4) obtain k where k: "200 * m + n = 2 * n * k" by (auto simp: dvd_def)
  have "X + 1 / 2 = of_nat (200 * m + n) / of_nat (2 * n)"
    using assms(2) by (simp add: X_def field_simps)
  also have "\<dots> = of_nat k" unfolding k using assms(2) by simp
  finally have half: "X + 1 / 2 = of_int (int k)" by simp
  then have "R = int k" unfolding R_def Math_round_def by (simp only: floor_of_int)
  with half have whole: "X + 1 / 2 = of_int R" by simp
  have lo: "R - 1 \<le> Math_round (percent m n)" and hi: "Math_round (percent m n) \<le> R"
    unfolding R_def X_def using Math_round_percent(1,2) [OF assms(1-3)] by simp_all
  show ?thesis
  proof (cases "percent m n < X")
    case True
    then have "percent m n + 1 / 2 < of_int R" using whole by simp
    then have "\<lfloor>percent m n + 1 / 2\<rfloor> < R" by (simp only: floor_less_iff)
    then have "Math_round (percent m n) = R - 1" using lo by (simp add: Math_round_def)
    with True show ?thesis by (simp add: R_def X_def)
  next
    case False
    then have "of_int R \<le> percent m n + 1 / 2" using whole by simp
    then have "R \<le> \<lfloor>percent m n + 1 / 2\<rfloor>" by (simp only: le_floor_iff)
    then have "Math_round (percent m n) = R" using hi by (simp add: Math_round_def)
    with False show ?thesis by (simp add: R_def X_def)
  qed
qed

section \<open>Properties of the string operations\<close>

lemma toLowerChar_idem: "toLowerChar (toLowerChar c) = toLowerChar c"
  by (simp add: toLowerChar_def Let_def)

lemma toLowerCase_idem: "toLowerCase (toLowerCase s) = toLowerCase s"
  by (simp add: toLowerCase_def toLowerChar_idem)

section \<open>Skill extraction\<close>

lemma extract_scenario_value:
  "extractSkillsFromText ''Experienced with Kubernetes and Docker'' = [''docker'', ''kubernetes'', ''r'']"
  by code_simp

lemma extract_empty: "extractSkillsFromText [] = []"
  by code_simp

text \<open>
  Claim C7. For every text, the extracted skills are vocabulary entries, they are exactly the
  vocabulary entries whose lower-cased form occurs as a contiguous substring of the lower-cased
  text, extraction gives the same list on the text and on its lower-cased form, and the empty
  text gives no skill.
\<close>

theorem extract_algebra:
  "set (extractSkillsFromText t) \<subseteq> set commonSkills
   \<and> set (extractSkillsFromText t)
       = {v \<in> set commonSkills. str_includes (toLowerCase t) (toLowerCase v)}
   \<and> extractSkillsFromText (toLowerCase t) = extractSkillsFromText t
   \<and> extractSkillsFromText [] = []"
  by (simp add: extractSkillsFromText_def toLowerCase_idem extract_empty [unfolded extractSkillsFromText_def] del: set_filter) auto

text \<open>
  Claim C8, as stated: the text \<open>Experienced with Kubernetes and Docker\<close> yields exactly
  \<open>kubernetes\<close> and \<open>docker\<close>. It does not: the vocabulary entry \<open>r\<close> occurs in
  \<open>experienced\<close>, \<open>kubernetes\<close> and \<open>docker\<close>.
\<close>

theorem extract_scenario_counterexample:
  "set (extractSkillsFromText ''Experienced with Kubernetes and Docker'') \<noteq> {''kubernetes'', ''docker''}"
proof
  assume eq: "set (extractSkillsFromText ''Experienced with Kubernetes and Docker'') = {''kubernetes'', ''docker''}"
  have "''r'' \<in> set (extractSkillsFromText ''Experienced with Kubernetes and Docker'')"
    by (simp add: extract_scenario_value)
  with eq have "''r'' \<in> {''kubernetes'', ''docker''}" by simp
  then show False by simp
qed

text \<open>
  Claim C8, amended: the text \<open>Experienced with Kubernetes and Docker\<close> yields exactly the
  three skills \<open>kubernetes\<close>, \<open>docker\<close> and \<open>r\<close>.
\<close>

theorem extract_scenario:
  "set (extractSkillsFromText ''Experienced with Kubernetes and Docker'') = {''kubernetes'', ''docker'', ''r''}"
  by (simp add: extract_scenario_value insert_commute)

lemma sublist_skip: "sublist xs ys \<Longrightarrow> sublist xs (ps @ ys)"
  by (auto simp: sublist_def) (metis append.assoc)

text \<open>
  Claim C9. When the seeker profile and the job posting of the payload exist, the processor
  returns a letter that is not empty and contains the job title and the full name of the
  seeker (first name, a space, last name); when the company name of the employer is missing
  or empty, the letter addresses the placeholder \<open>Company\<close>.
\<close>

theorem compose_contains:
  assumes "seekerProfiles d (seekerProfileId_cl data) = Some p"
    and "jobPosting_findUnique (jobPostingId data) d = Some j"
  shows "\<exists>letter. processCoverLetterGeneration data d = Inr letter
           \<and> letter \<noteq> []
           \<and> sublist (title j) letter
           \<and> sublist (firstName p @ '' '' @ lastName p) letter
           \<and> (employerCompanyName j = None \<or> employerCompanyName j = Some [] \<longrightarrow>
                sublist ''Dear Hiring Manager at Company,'' letter)"
proof -
  let ?c = "companyNameOr (employerCompanyName j)"
  let ?n = "firstName p @ '' '' @ lastName p"
  let ?s = "join '', '' (skillsOf (seekerProfileId_cl data) d)"
  let ?l = "coverLetterTemplate p ?n ?c (title j) ?s"
  have r: "processCoverLetterGeneration data d = Inr ?l"
    using assms by (simp add: processCoverLetterGeneration_def Let_def)
  have ne: "?l \<noteq> []"
    by (simp add: coverLetterTemplate_def)
  have t: "sublist (title j) ?l"
    unfolding coverLetterTemplate_def
    by (rule sublist_append_rightI | rule sublist_skip)+
  have n: "sublist ?n ?l"
    unfolding coverLetterTemplate_def
    by (rule sublist_append_rightI | rule sublist_skip)+
  have c: "sublist (''Dear Hiring Manager at '' @ ?c @ '','') ?l"
  proof -
    have a: "''    Dear Hiring Manager at '' @ ?c @ '',\<newline>'' @ rest
        = ''    '' @ (''Dear Hiring Manager at '' @ ?c @ '','') @ ''\<newline>'' @ rest" for rest
      by simp
    show ?thesis
      unfolding coverLetterTemplate_def a
      by (rule sublist_appendI | rule sublist_skip)+
  qed
  have "sublist ''Dear Hiring Manager at Company,'' ?l"
    if "employerCompanyName j = None \<or> employerCompanyName j = Some []"
  proof -
    from that have "?c = ''Company''" by (auto simp: companyNameOr_def)
    with c show ?thesis by simp
  qed
  with r ne t n show ?thesis by blast
qed

theorem compose_contains_witness:
  "seekerProfiles ex_db (seekerProfileId_cl ex_cl) = Some ex_profile
   \<and> jobPosting_findUnique (jobPostingId ex_cl) ex_db = Some ex_job
   \<and> (\<exists>letter. processCoverLetterGeneration ex_cl ex_db = Inr letter
         \<and> letter \<noteq> []
         \<and> sublist ''Engineer'' letter
         \<and> sublist ''Ada Lovelace'' letter
         \<and> sublist ''Dear Hiring Manager at Company,'' letter)"
  using compose_contains [of ex_db ex_cl ex_profile ex_job]
  by (simp add: ex_db_def ex_cl_def ex_job_def ex_profile_def jobPosting_findUnique_def)

section \<open>The skill-saving loop and the CV parsing processor\<close>

lemma findFirst_None_iff:
  "seekerSkill_findFirst pid name d = None \<longleftrightarrow> (pid, name) \<notin> set (seekerSkill d)"
  by (auto simp: seekerSkill_findFirst_def find_None_iff)

lemma saveSkills_profile_missing:
  "seekerProfiles d pid = None \<Longrightarrow> snd (saveSkills pid skills d) = d"
  by (induction skills) (auto simp: seekerSkill_create_def split: option.splits)

lemma saveSkills_all_present:
  "\<forall>s \<in> set skills. (pid, s) \<in> set (seekerSkill d) \<Longrightarrow> saveSkills pid skills d = (None, d)"
  by (induction skills) (auto simp: findFirst_None_iff split: option.splits)

lemma saveSkills_profile_exists:
  "seekerProfiles d pid \<noteq> None \<Longrightarrow>
   \<exists>rows. saveSkills pid skills d = (None, d\<lparr>seekerSkill := seekerSkill d @ rows\<rparr>)
        \<and> (\<forall>s \<in> set skills. (pid, s) \<in> set (seekerSkill d @ rows))
        \<and> distinct rows \<and> set rows \<inter> set (seekerSkill d) = {}
        \<and> set rows \<subseteq> {pid} \<times> set skills"
proof (induction skills arbitrary: d)
  case Nil
  show ?case by (rule exI [of _ "[]"]) simp
next
  case (Cons skill rest)
  show ?case
  proof (cases "(pid, skill) \<in> set (seekerSkill d)")
    case True
    then obtain row where f: "seekerSkill_findFirst pid skill d = Some row"
      using findFirst_None_iff [of pid skill d] by (cases "seekerSkill_findFirst pid skill d") auto
    from Cons.IH [OF Cons.prems] obtain rows where
      r: "saveSkills pid rest d = (None, d\<lparr>seekerSkill := seekerSkill d @ rows\<rparr>)"
         "\<forall>s \<in> set rest. (pid, s) \<in> set (seekerSkill d @ rows)"
         "distinct rows" "set rows \<inter> set (seekerSkill d) = {}"
         "set rows \<subseteq> {pid} \<times> set rest"
      by blast
    show ?thesis
      using f r True by (intro exI [of _ rows]) auto
  next
    case False
    then have f: "seekerSkill_findFirst pid skill d = None"
      by (simp add: findFirst_None_iff)
    let ?d = "d\<lparr>seekerSkill := seekerSkill d @ [(pid, skill)]\<rparr>"
    have c: "seekerSkill_create pid skill d = Inr ?d"
      using Cons.prems False by (simp add: seekerSkill_create_def)
    have "seekerProfiles ?d pid \<noteq> None" using Cons.prems by simp
    from Cons.IH [OF this] obtain rows where
      r: "saveSkills pid rest ?d = (None, ?d\<lparr>seekerSkill := seekerSkill ?d @ rows\<rparr>)"
         "\<forall>s \<in> set rest. (pid, s) \<in> set (seekerSkill ?d @ rows)"
         "distinct rows" "set rows \<inter> set (seekerSkill ?d) = {}"
         "set rows \<subseteq> {pid} \<times> set rest"
      by blast
    show ?thesis
      using f c r False by (intro exI [of _ "(pid, skill) # rows"]) auto
  qed
qed

lemma saveSkills_idem:
  "snd (saveSkills pid skills (snd (saveSkills pid skills d))) = snd (saveSkills pid skills d)"
proof (cases "seekerProfiles d pid = None")
  case True
  then show ?thesis by (simp add: saveSkills_profile_missing)
next
  case False
  from saveSkills_profile_exists [OF False, of skills] obtain rows where
    r: "saveSkills pid skills d = (None, d\<lparr>seekerSkill := seekerSkill d @ rows\<rparr>)"
       "\<forall>s \<in> set skills. (pid, s) \<in> set (seekerSkill d @ rows)"
    by blast
  have "saveSkills pid skills (d\<lparr>seekerSkill := seekerSkill d @ rows\<rparr>) = (None, d\<lparr>seekerSkill := seekerSkill d @ rows\<rparr>)"
    by (rule saveSkills_all_present) (use r(2) in simp)
  then show ?thesis using r(1) by simp
qed

lemma saveSkills_appends:
  "\<exists>rows. snd (saveSkills pid skills d) = d\<lparr>seekerSkill := seekerSkill d @ rows\<rparr>
      \<and> distinct rows \<and> set rows \<inter> set (seekerSkill d) = {}
      \<and> set rows \<subseteq> {pid} \<times> set skills"
proof (cases "seekerProfiles d pid = None")
  case True
  then show ?thesis
    by (intro exI [of _ "[]"]) (simp add: saveSkills_profile_missing)
next
  case False
  from saveSkills_profile_exists [OF False, of skills] show ?thesis
    by (metis snd_conv)
qed

lemma processCvParsing_snd:
  "snd (processCvParsing job d) = snd (saveSkills (seekerProfileId job) (extractSkillsFromText sampleCvText) d)"
  by (simp add: processCvParsing_def Let_def split: prod.splits option.splits)

lemma processCvParsing_fst:
  "fst (processCvParsing job d) =
     (case fst (saveSkills (seekerProfileId job) (extractSkillsFromText sampleCvText) d) of
        Some e \<Rightarrow> Inl e
      | None \<Rightarrow> Inr \<lparr>parsedText = sampleCvText, extractedSkills = extractSkillsFromText sampleCvText\<rparr>)"
  by (simp add: processCvParsing_def Let_def split: prod.splits option.splits)

lemma processCvParsing_ok:
  "seekerProfiles d (seekerProfileId job) \<noteq> None \<Longrightarrow>
   fst (processCvParsing job d) = Inr \<lparr>parsedText = sampleCvText, extractedSkills = extractSkillsFromText sampleCvText\<rparr>"
  using saveSkills_profile_exists [of d "seekerProfileId job" "extractSkillsFromText sampleCvText"]
  by (auto simp: processCvParsing_fst)

lemma processCvParsing_frame:
  "jobQueue (snd (processCvParsing job d)) = jobQueue d
   \<and> seekerProfiles (snd (processCvParsing job d)) = seekerProfiles d"
  using saveSkills_appends [of "seekerProfileId job" "extractSkillsFromText sampleCvText" d]
  by (auto simp: processCvParsing_snd)

text \<open>
  Claim C3. Running the CV parsing processor a second time for the same seeker leaves the
  store as the first run left it, and so does the skill-saving loop for any list of
  extracted skills. A run only appends rows to the skills table: rows of this seeker for
  extracted skills, pairwise distinct and none of them in the table before; a skills table
  without duplicate rows has none after a run.
\<close>

theorem cv_parse_idempotent:
  "snd (processCvParsing job (snd (processCvParsing job d))) = snd (processCvParsing job d)
   \<and> snd (saveSkills pid skills (snd (saveSkills pid skills d))) = snd (saveSkills pid skills d)
   \<and> (\<exists>rows. snd (processCvParsing job d) = d\<lparr>seekerSkill := seekerSkill d @ rows\<rparr>
          \<and> distinct rows \<and> set rows \<inter> set (seekerSkill d) = {}
          \<and> set rows \<subseteq> {seekerProfileId job} \<times> set (extractSkillsFromText sampleCvText))
   \<and> (distinct (seekerSkill d) \<longrightarrow> distinct (seekerSkill (snd (processCvParsing job d))))"
proof (intro conjI impI)
  show "snd (processCvParsing job (snd (processCvParsing job d))) = snd (processCvParsing job d)"
    by (simp add: processCvParsing_snd saveSkills_idem)
  show "snd (saveSkills pid skills (snd (saveSkills pid skills d))) = snd (saveSkills pid skills d)"
    by (rule saveSkills_idem)
  show "\<exists>rows. snd (processCvParsing job d) = d\<lparr>seekerSkill := seekerSkill d @ rows\<rparr>
          \<and> distinct rows \<and> set rows \<inter> set (seekerSkill d) = {}
          \<and> set rows \<subseteq> {seekerProfileId job} \<times> set (extractSkillsFromText sampleCvText)"
    unfolding processCvParsing_snd by (rule saveSkills_appends)
  assume "distinct (seekerSkill d)"
  then show "distinct (seekerSkill (snd (processCvParsing job d)))"
    using saveSkills_appends [of "seekerProfileId job" "extractSkillsFromText sampleCvText" d]
    by (auto simp: processCvParsing_snd)
qed

theorem cv_parse_idempotent_witness:
  "distinct (seekerSkill ex_db) \<and> distinct (seekerSkill (snd (processCvParsing ex_cv ex_db)))
   \<and> snd (processCvParsing ex_cv (snd (processCvParsing ex_cv ex_db))) = snd (processCvParsing ex_cv ex_db)"
  using cv_parse_idempotent [of ex_cv ex_db] by (simp add: ex_db_def)

text \<open>
  Claim C10. Whatever the payloads and the stores, two runs of the CV parsing processor that
  return a result return the same one: the sample text and the skills extracted from it.
  The result and the store after a run do not depend on \<open>cvUrl\<close>, and a run for
  an existing seeker profile does return.
\<close>

theorem cv_parse_output_independent:
  "(fst (processCvParsing job1 d1) = Inr r1 \<and> fst (processCvParsing job2 d2) = Inr r2 \<longrightarrow>
      r1 = r2 \<and> parsedText r1 = sampleCvText
      \<and> extractedSkills r1 = extractSkillsFromText sampleCvText)
   \<and> processCvParsing (job\<lparr>cvUrl := u\<rparr>) d = processCvParsing job d
   \<and> (seekerProfiles d (seekerProfileId job) \<noteq> None \<longrightarrow>
        fst (processCvParsing job d)
          = Inr \<lparr>parsedText = sampleCvText, extractedSkills = extractSkillsFromText sampleCvText\<rparr>)"
proof (intro conjI impI)
  assume a: "fst (processCvParsing job1 d1) = Inr r1 \<and> fst (processCvParsing job2 d2) = Inr r2"
  let ?r = "\<lparr>parsedText = sampleCvText, extractedSkills = extractSkillsFromText sampleCvText\<rparr>"
  have "r1 = ?r" using a by (auto simp: processCvParsing_fst split: option.splits)
  moreover have "r2 = ?r" using a by (auto simp: processCvParsing_fst split: option.splits)
  ultimately show "r1 = r2" "parsedText r1 = sampleCvText"
    "extractedSkills r1 = extractSkillsFromText sampleCvText"
    by simp_all
next
  show "processCvParsing (job\<lparr>cvUrl := u\<rparr>) d = processCvParsing job d"
    by (simp add: processCvParsing_def)
next
  assume "seekerProfiles d (seekerProfileId job) \<noteq> None"
  then show "fst (processCvParsing job d)
          = Inr \<lparr>parsedText = sampleCvText, extractedSkills = extractSkillsFromText sampleCvText\<rparr>"
    by (rule processCvParsing_ok)
qed

theorem cv_parse_output_independent_witness:
  "seekerProfiles ex_db (seekerProfileId ex_cv) \<noteq> None
   \<and> fst (processCvParsing ex_cv ex_db)
       = Inr \<lparr>parsedText = sampleCvText, extractedSkills = extractSkillsFromText sampleCvText\<rparr>
   \<and> fst (processCvParsing (ex_cv\<lparr>cvUrl := ''/uploads/other.docx''\<rparr>) ex_db)
       = fst (processCvParsing ex_cv ex_db)"
  using cv_parse_output_independent [where job = ex_cv and d = ex_db and u = "''/uploads/other.docx''"
      and ?job1.0 = ex_cv and ?d1.0 = ex_db and ?job2.0 = "ex_cv\<lparr>cvUrl := ''/uploads/other.docx''\<rparr>" and ?d2.0 = ex_db
      and ?r1.0 = "\<lparr>parsedText = sampleCvText, extractedSkills = extractSkillsFromText sampleCvText\<rparr>"
      and ?r2.0 = "\<lparr>parsedText = sampleCvText, extractedSkills = extractSkillsFromText sampleCvText\<rparr>"]
  by (simp add: ex_db_def ex_cv_def)

text \<open>
  The CV parsing processor calls no external service: whenever the seeker profile and the
  queue row of the task exist, it returns the skills found by the local heuristic in the
  sample text, and the worker leaves the task \<open>COMPLETED\<close> with that result.
\<close>

lemma cv_parse_completes:
  assumes "seekerProfiles d (seekerProfileId job) \<noteq> None"
    and "jobQueue d (dbJobId job) \<noteq> None"
  shows "fst (processCvParsing job d)
           = Inr \<lparr>parsedText = sampleCvText, extractedSkills = extractSkillsFromText sampleCvText\<rparr>
         \<and> fst (cvParsingWorker job d) = None
         \<and> taskStatus (snd (cvParsingWorker job d)) (dbJobId job) = Some ''COMPLETED''
         \<and> taskResult (snd (cvParsingWorker job d)) (dbJobId job)
             = Some (CvParsingJson \<lparr>parsedText = sampleCvText,
                                     extractedSkills = extractSkillsFromText sampleCvText\<rparr>)"
proof -
  let ?r = "\<lparr>parsedText = sampleCvText, extractedSkills = extractSkillsFromText sampleCvText\<rparr>"
  obtain x d' where p: "processCvParsing job d = (x, d')" by (cases "processCvParsing job d")
  have x: "x = Inr ?r" using processCvParsing_ok [OF assms(1)] p by simp
  have f: "jobQueue d' = jobQueue d" "seekerProfiles d' = seekerProfiles d"
    using processCvParsing_frame [of job d] p by simp_all
  obtain row where row: "jobQueue d' (dbJobId job) = Some row" using assms(2) f by auto
  obtain pr where pr: "seekerProfiles d' (seekerProfileId job) = Some pr" using assms(1) f by auto
  have w: "cvParsingWorker job d = cvParsing_on_completed job ?r d'"
    by (simp add: cvParsingWorker_def p x)
  show ?thesis
    using processCvParsing_ok [OF assms(1)] row pr
    by (simp add: w cvParsing_on_completed_def jobQueue_update_def
        seekerProfile_update_parsedCvText_def taskStatus_def taskResult_def)
qed

lemma cv_parse_completes_example:
  "seekerProfiles ex_db (seekerProfileId ex_cv) \<noteq> None \<and> jobQueue ex_db (dbJobId ex_cv) \<noteq> None
   \<and> taskStatus (snd (cvParsingWorker ex_cv ex_db)) ''q1'' = Some ''COMPLETED''"
  using cv_parse_completes [of ex_db ex_cv] by (simp add: ex_db_def ex_cv_def)

section \<open>The CV analysis route\<close>

lemma route_saveSkills_strings: "route_saveSkills pid (map JStr skills) d = saveSkills pid skills d"
  by (induction skills arbitrary: d) (auto split: option.splits sum.splits)

lemma extract_fallbackText: "extractSkillsFromText fallbackText = [''ai'', ''r'']"
  by code_simp

lemma aiFields_no_answer:
  "aiFields None = (JStr [], JArr [])"
  "aiFields (Some NetworkError) = (JStr [], JArr [])"
  "aiFields (Some BodyNotJson) = (JStr [], JArr [])"
  "aiFields (Some (Body (JObj []))) = (JStr [], JArr [])"
  by (simp_all add: aiFields_def fieldsOf_def orElse_def andAlso_def)

text \<open>
  The fallback that the route has. When the text that the service left is the empty string,
  or is a string and the skills have length 0, the route answers with the skills that the
  local heuristic finds in the text (the fixed sentence, for the empty string) and saves
  them. That is the case when the service is not configured, the call is rejected, the body
  is not JSON, or the body is an object without the fields.
\<close>

lemma analyzeCv_falls_back:
  assumes "seekerProfile_findByUser uid d = Some (pid, p)"
    and "present (profileCvUrl p) \<noteq> None"
    and "fst (aiFields ai) = JStr s"
    and "s = [] \<or> lengthProp (snd (aiFields ai)) = JNum 0"
  shows "fst (analyzeCv ai uid d)
           = Json200 (JStr (if s = [] then fallbackText else s))
                     (JArr (map JStr (extractSkillsFromText (if s = [] then fallbackText else s))))"
    and "\<forall>skill \<in> set (extractSkillsFromText (if s = [] then fallbackText else s)).
           (pid, skill) \<in> set (seekerSkill (snd (analyzeCv ai uid d)))"
proof -
  define s' where "s' = (if s = [] then fallbackText else s)"
  have ne: "fallbackText \<noteq> []" by (simp add: fallbackText_def)
  have fb: "fallback (fst (aiFields ai)) (snd (aiFields ai))
              = Inr (JStr s', JArr (map JStr (extractSkillsFromText s')))"
    using assms(3,4) ne
    by (auto simp: fallback_def Let_def orElse_def route_extractSkillsFromText_def s'_def)
  from assms(1) have p: "seekerProfiles d pid = Some p"
    by (auto simp: seekerProfile_findByUser_def split: option.splits)
  define d1 where "d1 = d\<lparr>seekerProfiles := (seekerProfiles d)(pid \<mapsto> p\<lparr>parsedCvText := Some s'\<rparr>)\<rparr>"
  have up: "persistParsedText pid (JStr s') d = Inr d1"
    by (simp add: persistParsedText_def seekerProfile_update_parsedCvText_def p d1_def)
  have "seekerProfiles d1 pid \<noteq> None" by (simp add: d1_def)
  from saveSkills_profile_exists [OF this, of "extractSkillsFromText s'"]
  obtain rows where rows:
    "saveSkills pid (extractSkillsFromText s') d1 = (None, d1\<lparr>seekerSkill := seekerSkill d1 @ rows\<rparr>)"
    "\<forall>skill \<in> set (extractSkillsFromText s'). (pid, skill) \<in> set (seekerSkill d1 @ rows)"
    by blast
  obtain cv where cv: "present (profileCvUrl p) = Some cv" using assms(2) by auto
  have r: "analyzeCv ai uid d
      = (Json200 (JStr s') (JArr (map JStr (extractSkillsFromText s'))),
         d1\<lparr>seekerSkill := seekerSkill d1 @ rows\<rparr>)"
    by (simp add: analyzeCv_def assms(1) cv fb up iterate_def route_saveSkills_strings rows(1))
  show "fst (analyzeCv ai uid d)
           = Json200 (JStr (if s = [] then fallbackText else s))
                     (JArr (map JStr (extractSkillsFromText (if s = [] then fallbackText else s))))"
    unfolding s'_def [symmetric] by (simp add: r)
  show "\<forall>skill \<in> set (extractSkillsFromText (if s = [] then fallbackText else s)).
           (pid, skill) \<in> set (seekerSkill (snd (analyzeCv ai uid d)))"
    unfolding s'_def [symmetric] using rows(2) by (simp add: r)
qed

lemma ex_db_user: "seekerProfile_findByUser ''u1'' ex_db = Some (''p1'', ex_profile)"
  "present (profileCvUrl ex_profile) \<noteq> None"
  by (simp_all add: seekerProfile_findByUser_def ex_db_def ex_profile_def present_def)

lemma analyzeCv_network_error:
  "fst (analyzeCv (Some NetworkError) ''u1'' ex_db)
     = Json200 (JStr fallbackText) (JArr [JStr ''ai'', JStr ''r''])"
  using analyzeCv_falls_back(1) [OF ex_db_user, of "Some NetworkError" "[]"]
  by (simp add: aiFields_no_answer extract_fallbackText)

text \<open>
  Claim C5. The external analysis service is called by the route
  \<open>POST /seeker/cv/analyze\<close>; the CV parsing processor calls no service. The route falls
  back on the local heuristic when the call is rejected, when the body is not JSON and when
  the fields are missing. It does not when a field has another type than the route
  expects. For the answer \<open>{"parsedText": 42}\<close> the fallback block is entered with the
  number, \<open>extractSkillsFromText\<close> throws on it, and the route answers with status 500;
  the parsed text and the skills of the seeker stay as they were. For the answer
  \<open>{"parsedText": "Senior React developer", "skills": 5}\<close> the fallback block is not
  entered, the text is stored, the loop over the number throws, and the route answers
  with status 500; no skill is saved.
\<close>

theorem analyze_cv_wrong_typed_fields:
  "fst (analyzeCv (Some (Body ex_body_text_number)) ''u1'' ex_db)
     = ErrorStatus 500 ''toLowerCase is not a function''
   \<and> map_option parsedCvText
        (seekerProfiles (snd (analyzeCv (Some (Body ex_body_text_number)) ''u1'' ex_db)) ''p1'')
       = Some None
   \<and> seekerSkill (snd (analyzeCv (Some (Body ex_body_text_number)) ''u1'' ex_db))
       = [(''p1'', ''react'')]
   \<and> fst (analyzeCv (Some (Body ex_body_skills_number)) ''u1'' ex_db)
       = ErrorStatus 500 ''extractedSkills is not iterable''
   \<and> map_option parsedCvText
        (seekerProfiles (snd (analyzeCv (Some (Body ex_body_skills_number)) ''u1'' ex_db)) ''p1'')
       = Some (Some ''Senior React developer'')
   \<and> seekerSkill (snd (analyzeCv (Some (Body ex_body_skills_number)) ''u1'' ex_db))
       = [(''p1'', ''react'')]"
  by code_simp

section \<open>The failure path of the workers\<close>

lemma findFirst_SomeD:
  "seekerSkill_findFirst pid name d = Some row \<Longrightarrow> (pid, name) \<in> set (seekerSkill d)"
  using findFirst_None_iff [of pid name d] by auto

lemma saveSkills_fails:
  "seekerProfiles d pid = None \<Longrightarrow> s \<in> set skills \<Longrightarrow> (pid, s) \<notin> set (seekerSkill d) \<Longrightarrow>
   fst (saveSkills pid skills d) = Some (Error ''Foreign key constraint failed'')"
proof (induction skills)
  case Nil
  then show ?case by simp
next
  case (Cons a rest)
  show ?case
  proof (cases "seekerSkill_findFirst pid a d")
    case None
    then show ?thesis using Cons.prems by (simp add: seekerSkill_create_def)
  next
    case (Some row)
    then have "(pid, a) \<in> set (seekerSkill d)" by (rule findFirst_SomeD)
    then have "a \<noteq> s" using Cons.prems by auto
    then have "s \<in> set rest" using Cons.prems by simp
    then show ?thesis using Some Cons by simp
  qed
qed

lemma javascript_in_sample: "''javascript'' \<in> set (extractSkillsFromText sampleCvText)"
proof -
  have "str_includes (toLowerCase sampleCvText) (toLowerCase ''javascript'')"
    by code_simp
  moreover have "''javascript'' \<in> set commonSkills"
    by (simp add: commonSkills_def)
  ultimately show ?thesis
    by (simp add: extractSkillsFromText_def Let_def)
qed

text \<open>
  Claim C4, amended. When the processor of a CV parsing or cover letter task throws and the
  queue row of the task exists, the worker sets the status of the row to \<open>FAILED\<close> and its
  result to the error object holding the message of the exception, and the handler itself
  ends without an error; the same holds for a job matching task whose payload names its
  queue row, and a job matching task whose payload names none leaves the store untouched.
  The handlers write the status without reading it: a \<open>completed\<close> event that reaches a row
  sets it to \<open>COMPLETED\<close> whatever it held before.
\<close>

theorem failed_task_recorded:
  "(fst (processCvParsing job d) = Inl e \<and> jobQueue d (dbJobId job) \<noteq> None \<longrightarrow>
      fst (cvParsingWorker job d) = None
      \<and> taskStatus (snd (cvParsingWorker job d)) (dbJobId job) = Some ''FAILED''
      \<and> taskResult (snd (cvParsingWorker job d)) (dbJobId job) = Some (ErrorJson (message e)))
   \<and> (processCoverLetterGeneration job' d = Inl e' \<and> jobQueue d (dbJobId_cl job') \<noteq> None \<longrightarrow>
      fst (coverLetterWorker job' d) = None
      \<and> taskStatus (snd (coverLetterWorker job' d)) (dbJobId_cl job') = Some ''FAILED''
      \<and> taskResult (snd (coverLetterWorker job' d)) (dbJobId_cl job') = Some (ErrorJson (message e')))
   \<and> (processJobMatching lower job'' d = Inl e'' \<and> present (dbJobId_jm job'') = Some q
        \<and> jobQueue d q \<noteq> None \<longrightarrow>
      fst (jobMatchingWorker lower job'' d) = None
      \<and> taskStatus (snd (jobMatchingWorker lower job'' d)) q = Some ''FAILED''
      \<and> taskResult (snd (jobMatchingWorker lower job'' d)) q = Some (ErrorJson (message e'')))
   \<and> (present (dbJobId_jm job'') = None \<longrightarrow> jobMatchingWorker lower job'' d = (None, d))
   \<and> (jobQueue d (dbJobId_cl job') \<noteq> None \<longrightarrow>
      taskStatus (snd (coverLetter_on_completed job' letter d)) (dbJobId_cl job') = Some ''COMPLETED'')
   \<and> (jobQueue d (dbJobId job) \<noteq> None \<longrightarrow>
      taskStatus (snd (cvParsing_on_completed job res d)) (dbJobId job) = Some ''COMPLETED'')"
proof (intro conjI impI)
  assume a: "fst (processCvParsing job d) = Inl e \<and> jobQueue d (dbJobId job) \<noteq> None"
  obtain x d' where p: "processCvParsing job d = (x, d')" by (cases "processCvParsing job d")
  have x: "x = Inl e" using a p by simp
  have f: "jobQueue d' = jobQueue d" using processCvParsing_frame [of job d] p by simp
  then obtain row where row: "jobQueue d' (dbJobId job) = Some row" using a by auto
  have w: "cvParsingWorker job d = cvParsing_on_failed (Some job) e d'"
    by (simp add: cvParsingWorker_def p x)
  show "fst (cvParsingWorker job d) = None"
    "taskStatus (snd (cvParsingWorker job d)) (dbJobId job) = Some ''FAILED''"
    "taskResult (snd (cvParsingWorker job d)) (dbJobId job) = Some (ErrorJson (message e))"
    using row by (simp_all add: w cvParsing_on_failed_def jobQueue_update_def taskStatus_def taskResult_def)
next
  assume a: "processCoverLetterGeneration job' d = Inl e' \<and> jobQueue d (dbJobId_cl job') \<noteq> None"
  then obtain row where row: "jobQueue d (dbJobId_cl job') = Some row" by auto
  have w: "coverLetterWorker job' d = coverLetter_on_failed (Some job') e' d"
    using a by (simp add: coverLetterWorker_def)
  show "fst (coverLetterWorker job' d) = None"
    "taskStatus (snd (coverLetterWorker job' d)) (dbJobId_cl job') = Some ''FAILED''"
    "taskResult (snd (coverLetterWorker job' d)) (dbJobId_cl job') = Some (ErrorJson (message e'))"
    using row by (simp_all add: w coverLetter_on_failed_def jobQueue_update_def taskStatus_def taskResult_def)
next
  assume a: "processJobMatching lower job'' d = Inl e'' \<and> present (dbJobId_jm job'') = Some q
        \<and> jobQueue d q \<noteq> None"
  then obtain row where row: "jobQueue d q = Some row" by auto
  have w: "jobMatchingWorker lower job'' d = jobMatching_on_failed (Some job'') e'' d"
    using a by (simp add: jobMatchingWorker_def)
  show "fst (jobMatchingWorker lower job'' d) = None"
    "taskStatus (snd (jobMatchingWorker lower job'' d)) q = Some ''FAILED''"
    "taskResult (snd (jobMatchingWorker lower job'' d)) q = Some (ErrorJson (message e''))"
    using row a by (simp_all add: w jobMatching_on_failed_def jobQueue_update_def taskStatus_def taskResult_def)
next
  assume "present (dbJobId_jm job'') = None"
  then show "jobMatchingWorker lower job'' d = (None, d)"
    by (simp add: jobMatchingWorker_def jobMatching_on_failed_def jobMatching_on_completed_def
        split: sum.splits)
next
  assume "jobQueue d (dbJobId_cl job') \<noteq> None"
  then show "taskStatus (snd (coverLetter_on_completed job' letter d)) (dbJobId_cl job') = Some ''COMPLETED''"
    by (auto simp: coverLetter_on_completed_def jobQueue_update_def application_update_coverLetter_def
        taskStatus_def split: option.splits)
next
  assume "jobQueue d (dbJobId job) \<noteq> None"
  then show "taskStatus (snd (cvParsing_on_completed job res d)) (dbJobId job) = Some ''COMPLETED''"
    by (auto simp: cvParsing_on_completed_def jobQueue_update_def seekerProfile_update_parsedCvText_def
        taskStatus_def split: option.splits)
qed

lemma ex_cv_stale_fails:
  "fst (processCvParsing ex_cv_stale ex_db) = Inl (Error ''Foreign key constraint failed'')"
  using saveSkills_fails [of ex_db "''p0''" "''javascript''" "extractSkillsFromText sampleCvText"]
    javascript_in_sample
  by (simp add: processCvParsing_fst ex_cv_stale_def ex_db_def)

lemma ex_cl_stale_fails:
  "processCoverLetterGeneration ex_cl_stale ex_db = Inl (Error ''Job posting not found'')"
  by (simp add: processCoverLetterGeneration_def jobPosting_findUnique_def ex_cl_stale_def ex_db_def)

lemma ex_jm_stale_fails:
  "processJobMatching toLowerCase ex_jm_stale ex_db = Inl (Error ''Seeker profile with ID p0 not found'')"
  "present (dbJobId_jm ex_jm_stale) = Some ''q1''"
  "present (dbJobId_jm (ex_jm_stale\<lparr>dbJobId_jm := None\<rparr>)) = None"
  by (simp_all add: processJobMatching_def present_def ex_jm_stale_def ex_db_def)

theorem failed_task_recorded_witness:
  "fst (processCvParsing ex_cv_stale ex_db) = Inl (Error ''Foreign key constraint failed'')
   \<and> jobQueue ex_db (dbJobId ex_cv_stale) \<noteq> None
   \<and> taskStatus (snd (cvParsingWorker ex_cv_stale ex_db)) ''q1'' = Some ''FAILED''
   \<and> taskResult (snd (cvParsingWorker ex_cv_stale ex_db)) ''q1''
       = Some (ErrorJson ''Foreign key constraint failed'')
   \<and> processCoverLetterGeneration ex_cl_stale ex_db = Inl (Error ''Job posting not found'')
   \<and> jobQueue ex_db (dbJobId_cl ex_cl_stale) \<noteq> None
   \<and> taskStatus (snd (coverLetterWorker ex_cl_stale ex_db)) ''q1'' = Some ''FAILED''
   \<and> taskResult (snd (coverLetterWorker ex_cl_stale ex_db)) ''q1''
       = Some (ErrorJson ''Job posting not found'')
   \<and> processJobMatching toLowerCase ex_jm_stale ex_db
       = Inl (Error ''Seeker profile with ID p0 not found'')
   \<and> present (dbJobId_jm ex_jm_stale) = Some ''q1''
   \<and> taskStatus (snd (jobMatchingWorker toLowerCase ex_jm_stale ex_db)) ''q1'' = Some ''FAILED''
   \<and> taskResult (snd (jobMatchingWorker toLowerCase ex_jm_stale ex_db)) ''q1''
       = Some (ErrorJson ''Seeker profile with ID p0 not found'')
   \<and> present (dbJobId_jm (ex_jm_stale\<lparr>dbJobId_jm := None\<rparr>)) = None
   \<and> jobMatchingWorker toLowerCase (ex_jm_stale\<lparr>dbJobId_jm := None\<rparr>) ex_db = (None, ex_db)
   \<and> taskStatus (snd (coverLetter_on_completed ex_cl_stale ''Dear'' ex_db)) ''q1'' = Some ''COMPLETED''
   \<and> taskStatus (snd (cvParsing_on_completed ex_cv \<lparr>parsedText = ''cv'', extractedSkills = []\<rparr> ex_db)) ''q1'' = Some ''COMPLETED''"
  using failed_task_recorded [where job = ex_cv_stale and d = ex_db and job' = ex_cl_stale
      and e = "Error ''Foreign key constraint failed''" and e' = "Error ''Job posting not found''"
      and letter = "''Dear''" and job'' = ex_jm_stale and q = "''q1''"
      and e'' = "Error ''Seeker profile with ID p0 not found''" and lower = toLowerCase]
    failed_task_recorded [where job = ex_cv and d = ex_db and job' = ex_cl_stale
      and res = "\<lparr>parsedText = ''cv'', extractedSkills = []\<rparr>"
      and job'' = "ex_jm_stale\<lparr>dbJobId_jm := None\<rparr>" and lower = toLowerCase]
    ex_cv_stale_fails ex_cl_stale_fails ex_jm_stale_fails
  by (simp add: ex_db_def ex_cv_stale_def ex_cl_stale_def ex_cv_def)

text \<open>
  Claim C4, as stated: \<open>FAILED\<close> is terminal. A cover letter task that is delivered while
  its job posting does not exist leaves its queue row \<open>FAILED\<close>; when the same task is
  delivered again after the posting has appeared, the row becomes \<open>COMPLETED\<close>.
\<close>

theorem failed_terminal_counterexample:
  "taskStatus (snd (coverLetterWorker ex_cl_stale ex_db)) ''q1'' = Some ''FAILED''
   \<and> taskStatus
         (snd (coverLetterWorker ex_cl_stale
                ((snd (coverLetterWorker ex_cl_stale ex_db))
                   \<lparr>jobPostings := [(''j1'', ex_job), (''j0'', ex_job)]\<rparr>))) ''q1''
       = Some ''COMPLETED''"
  by (simp add: coverLetterWorker_def processCoverLetterGeneration_def coverLetter_on_failed_def
      coverLetter_on_completed_def jobQueue_update_def application_update_coverLetter_def
      taskStatus_def jobPosting_findUnique_def ex_db_def ex_cl_stale_def ex_job_def
      ex_profile_def Let_def)

section \<open>Match scores\<close>

lemma Math_round_range: "0 \<le> y \<Longrightarrow> y \<le> 100 \<Longrightarrow> 0 \<le> Math_round y \<and> Math_round y \<le> 100"
proof -
  assume "0 \<le> y" "y \<le> 100"
  then have "of_int 0 \<le> y + 1 / 2" "y + 1 / 2 < of_int 101" by simp_all
  then have "0 \<le> \<lfloor>y + 1 / 2\<rfloor>" "\<lfloor>y + 1 / 2\<rfloor> < 101"
    by (simp_all only: le_floor_iff floor_less_iff)
  then show ?thesis by (simp add: Math_round_def)
qed


lemma Math_round_0: "Math_round 0 = 0"
  by code_simp


lemma percent_0: "percent 0 n = 0"
  by (simp add: percent_def js_div_def js_mul_def fl64_0)

lemma score_of_percent:
  assumes "m \<le> n" "0 < n" "n < 2 ^ 32"
  shows "0 \<le> Math_round (percent m n)" and "Math_round (percent m n) \<le> 100"
    and "Math_round (percent m n)
           = (if exact_tie m n \<and> double_below m n then spec_score m n - 1 else spec_score m n)"
proof -
  show "0 \<le> Math_round (percent m n)" and "Math_round (percent m n) \<le> 100"
    using Math_round_range [OF percent_range [OF assms(1,2)]] by simp_all
  show "Math_round (percent m n)
           = (if exact_tie m n \<and> double_below m n then spec_score m n - 1 else spec_score m n)"
  proof (cases "exact_tie m n")
    case True
    then have "2 * n dvd 200 * m + n" by (simp add: exact_tie_def)
    from Math_round_percent_tie [OF assms this] True assms(2) show ?thesis
      by (simp add: spec_score_def double_below_def)
  next
    case False
    then have "\<not> 2 * n dvd 200 * m + n" by (simp add: exact_tie_def)
    from Math_round_percent(3) [OF assms this] False assms(2) show ?thesis
      by (simp add: spec_score_def)
  qed
qed



lemma getJobRecommendations_elems:
  assumes "getJobRecommendations lower pid d = Inr recs" and "r \<in> set recs"
  shows "\<exists>j \<in> set (jobPosting_findMany d).
           r = toRecommendation (matchJob lower (map lower (skillsOf pid d)) j)"
proof -
  from assms(1) obtain ms where ms: "findMatchingJobs lower pid d = Inr ms" "recs = map toRecommendation ms"
    by (auto simp: getJobRecommendations_def split: sum.splits)
  from ms(1) have "set ms = matchJob lower (map lower (skillsOf pid d)) ` set (jobPosting_findMany d)"
    by (auto simp: findMatchingJobs_def Let_def split: option.splits)
  with ms(2) assms(2) show ?thesis by auto
qed


lemma tie_examples:
  "exact_tie 23 40" "double_below 23 40" "spec_score 23 40 = 58"
  "exact_tie 7 8" "\<not> double_below 7 8" "spec_score 7 8 = 88"
  by code_simp+








lemma calculateJobMatch_eq:
  "calculateJobMatch lower skills req desc =
     Math_round (percent
       (length (filter (str_includes (lower (orEmpty req @ '' '' @ orEmpty desc)))
                       (map lower skills)))
       (max 1 (length skills)))"
proof -
  have "(if length (map lower skills) = 0 then 1 else length (map lower skills))
          = max 1 (length skills)"
    by (cases skills) simp_all
  then show ?thesis unfolding calculateJobMatch_def Let_def by (simp only:)
qed

lemma processJobMatching_score:
  assumes "processJobMatching lower data d = Inr (MatchOne jid score)"
  shows "\<exists>j. jobPosting_findUnique jid d = Some j
           \<and> score = calculateJobMatch lower (skillsOf (seekerProfileId_jm data) d)
                       (requirements j) (description j)"
  using assms by (auto simp: processJobMatching_def split: option.splits)

text \<open>
  Claim C2, amended. The score that the job matching processor returns for one job posting
  is \<open>calculateJobMatch\<close> on the names of the seeker's skills and the requirements and
  description of the posting. For every lower-casing function, every list of fewer than
  \<open>2 ^ 32\<close> candidate skills and every job, \<open>calculateJobMatch\<close> returns an integer from 0 to
  100, without a division by zero, and 0 for an empty list of skills. With \<open>matched\<close> the
  number of lower-cased skills that occur in the lower-cased text
  \<open>requirements + " " + description\<close> and \<open>total\<close> the larger of 1 and the number of skills,
  the result is \<open>round(100 * matched / total)\<close>, a half rounding up, with one exception: when
  \<open>100 * matched / total\<close> lies exactly halfway between two integers and the double
  \<open>(matched / total) * 100\<close> lies below it, the result is one less. So 7 of 8 gives 88, and
  23 of 40 gives 57.
\<close>

theorem text_containment_score:
  assumes "length skills < 2 ^ 32"
  shows "0 \<le> calculateJobMatch lower skills req desc
    \<and> calculateJobMatch lower skills req desc \<le> 100
    \<and> (skills = [] \<longrightarrow> calculateJobMatch lower skills req desc = 0)
    \<and> calculateJobMatch lower skills req desc
        = (if exact_tie
                (length (filter (str_includes (lower (orEmpty req @ '' '' @ orEmpty desc)))
                                (map lower skills)))
                (max 1 (length skills))
              \<and> double_below
                  (length (filter (str_includes (lower (orEmpty req @ '' '' @ orEmpty desc)))
                                  (map lower skills)))
                  (max 1 (length skills))
           then spec_score
                  (length (filter (str_includes (lower (orEmpty req @ '' '' @ orEmpty desc)))
                                  (map lower skills)))
                  (max 1 (length skills)) - 1
           else spec_score
                  (length (filter (str_includes (lower (orEmpty req @ '' '' @ orEmpty desc)))
                                  (map lower skills)))
                  (max 1 (length skills)))"
proof -
  define m where "m = length (filter (str_includes (lower (orEmpty req @ '' '' @ orEmpty desc)))
                            (map lower skills))"
  define n where "n = max 1 (length skills)"
  have e: "calculateJobMatch lower skills req desc = Math_round (percent m n)"
    by (simp add: calculateJobMatch_eq m_def n_def)
  have "m \<le> length (map lower skills)" unfolding m_def by (rule length_filter_le)
  then have mn: "m \<le> n" by (simp add: n_def)
  have n0: "0 < n" by (simp add: n_def)
  have nb: "n < 2 ^ 32" using assms by (simp add: n_def)
  note sp = score_of_percent [OF mn n0 nb]
  have "m = 0" if "skills = []" using that by (simp add: m_def)
  then have z: "Math_round (percent m n) = 0" if "skills = []"
    using that by (simp add: percent_0 Math_round_0)
  show ?thesis
    unfolding m_def [symmetric] n_def [symmetric] e
    using sp z by blast
qed

lemma ex40_calc: "calculateJobMatch toLowerCase ex_tags40 (Some ex_requirements) None = 57"
  by code_simp

lemma ex40_calc_counts:
  "card (set (filter (str_includes (toLowerCase (orEmpty (Some ex_requirements) @ '' '' @ orEmpty None)))
                     (map toLowerCase ex_tags40))) = 23"
  "max 1 (card (set ex_tags40)) = 40"
  by code_simp+

text \<open>
  Claim C2, as stated: the result equals \<open>round(100 * matched / max(1, |S|))\<close>. For forty
  skills of which twenty-three occur in the requirements, the exact quotient is 57.5 and
  rounds to 58; \<open>calculateJobMatch\<close> divides first, the double it rounds lies just below
  57.5, and it returns 57.
\<close>

theorem text_containment_score_counterexample:
  "calculateJobMatch toLowerCase ex_tags40 (Some ex_requirements) None
     \<noteq> spec_score
          (card (set (filter (str_includes (toLowerCase (orEmpty (Some ex_requirements) @ '' '' @ orEmpty None)))
                             (map toLowerCase ex_tags40))))
          (max 1 (card (set ex_tags40)))"
  unfolding ex40_calc ex40_calc_counts tie_examples(3) by simp

lemma ex_calc:
  "length (filter (str_includes (toLowerCase (orEmpty (Some ''Experience with React and SQL'') @ '' '' @ orEmpty None)))
                  (map toLowerCase [''React'', ''Node'', ''SQL''])) = 2"
  "max 1 (length [''React'', ''Node'', ''SQL'']) = 3"
  "(if exact_tie 2 3 \<and> double_below 2 3 then spec_score 2 3 - 1 else spec_score 2 3) = 67"
  "length (filter (str_includes (toLowerCase (orEmpty (Some ex_requirements) @ '' '' @ orEmpty None)))
                  (map toLowerCase ex_tags40)) = 23"
  "max 1 (length ex_tags40) = 40"
  "(if exact_tie 23 40 \<and> double_below 23 40 then spec_score 23 40 - 1 else spec_score 23 40) = 57"
  "length ex_tags40 = 40"
  by code_simp+

theorem text_containment_score_witness:
  "length [''React'', ''Node'', ''SQL''] < 2 ^ 32
   \<and> calculateJobMatch toLowerCase [''React'', ''Node'', ''SQL''] (Some ''Experience with React and SQL'') None = 67
   \<and> calculateJobMatch toLowerCase [] (Some ''Experience with React and SQL'') None = 0
   \<and> calculateJobMatch toLowerCase ex_tags40 (Some ex_requirements) None = 57"
proof -
  have len: "length [''React'', ''Node'', ''SQL''] < 2 ^ 32" and len0: "length ([] :: string list) < 2 ^ 32"
    and len40: "length ex_tags40 < 2 ^ 32"
    unfolding ex_calc(7) by simp_all
  note a = text_containment_score [OF len, of toLowerCase "Some ''Experience with React and SQL''" None]
  note b = text_containment_score [OF len0, of toLowerCase "Some ''Experience with React and SQL''" None]
  note c = text_containment_score [OF len40, of toLowerCase "Some ex_requirements" None]
  have s1: "calculateJobMatch toLowerCase [''React'', ''Node'', ''SQL''] (Some ''Experience with React and SQL'') None = 67"
    using a [THEN conjunct2, THEN conjunct2, THEN conjunct2]
    unfolding ex_calc(1,2) ex_calc(3) .
  have s2: "calculateJobMatch toLowerCase [] (Some ''Experience with React and SQL'') None = 0"
    using b [THEN conjunct2, THEN conjunct2, THEN conjunct1] by simp
  have s3: "calculateJobMatch toLowerCase ex_tags40 (Some ex_requirements) None = 57"
    using c [THEN conjunct2, THEN conjunct2, THEN conjunct2]
    unfolding ex_calc(4,5) ex_calc(6) .
  show ?thesis using len s1 s2 s3 by (intro conjI)
qed

lemma Math_round_mono: "x \<le> y \<Longrightarrow> Math_round x \<le> Math_round y"
  by (simp add: Math_round_def floor_mono)

text \<open>
  Claim C6, amended. For an existing seeker profile, the recommendations are the matched
  jobs, one per job posting, in the order of the stable sort by the unrounded percentage
  \<open>matchScore\<close>, descending: the unrounded scores are non-increasing along the list, hence
  so are the rounded scores that are returned, and the jobs that share one unrounded score
  appear in the order of the input.
\<close>

theorem recommendations_ranking:
  assumes "seekerProfiles d pid = Some p"
  shows "\<exists>ms. findMatchingJobs lower pid d = Inr ms
           \<and> getJobRecommendations lower pid d = Inr (map toRecommendation ms)
           \<and> length ms = length (jobPosting_findMany d)
           \<and> set ms = set (map (matchJob lower (map lower (skillsOf pid d))) (jobPosting_findMany d))
           \<and> sorted_wrt (\<lambda>a b. matchScore b \<le> matchScore a) ms
           \<and> sorted_wrt (\<lambda>a b. rec_matchScore b \<le> rec_matchScore a) (map toRecommendation ms)
           \<and> (\<forall>c. filter (\<lambda>m. matchScore m = c) ms
                  = filter (\<lambda>m. matchScore m = c)
                      (map (matchJob lower (map lower (skillsOf pid d))) (jobPosting_findMany d)))"
proof -
  define input where "input = map (matchJob lower (map lower (skillsOf pid d))) (jobPosting_findMany d)"
  define ms where "ms = sort_key (\<lambda>m. - matchScore m) input"
  have f: "findMatchingJobs lower pid d = Inr ms"
    using assms by (simp add: findMatchingJobs_def Let_def ms_def input_def)
  then have g: "getJobRecommendations lower pid d = Inr (map toRecommendation ms)"
    by (simp add: getJobRecommendations_def)
  have l: "length ms = length (jobPosting_findMany d)" by (simp add: ms_def input_def)
  have s: "set ms = set input" by (simp add: ms_def)
  have "sorted (map (\<lambda>m. - matchScore m) ms)" unfolding ms_def by (rule sorted_sort_key)
  then have so: "sorted_wrt (\<lambda>a b. matchScore b \<le> matchScore a) ms"
    by (simp add: sorted_map)
  then have "sorted_wrt (\<lambda>a b. Math_round (matchScore b) \<le> Math_round (matchScore a)) ms"
    by (rule sorted_wrt_mono_rel [rotated]) (simp add: Math_round_mono)
  then have sr: "sorted_wrt (\<lambda>a b. rec_matchScore b \<le> rec_matchScore a) (map toRecommendation ms)"
    by (simp add: sorted_wrt_map toRecommendation_def)
  have st: "filter (\<lambda>m. matchScore m = c) ms = filter (\<lambda>m. matchScore m = c) input" for c
    using sort_key_stable [of "\<lambda>m. - matchScore m" "- c" input] by (simp add: ms_def)
  show ?thesis
    unfolding input_def [symmetric] using f g l s so sr st by blast
qed

lemma ex_rank_ids:
  "map_sum id (map rec_id) (getJobRecommendations toLowerCase ''p1'' ex_db_rank) = Inr [''j12'', ''j13'']"
  by code_simp

lemma ex_rank_scores:
  "map_sum id (map rec_matchScore) (getJobRecommendations toLowerCase ''p1'' ex_db_rank) = Inr [8, 8]"
  by code_simp

lemma ex_rank_input: "map fst (jobPosting_findMany ex_db_rank) = [''j13'', ''j12'']"
  by code_simp

text \<open>
  Claim C6, as stated: two jobs with an equal score appear in their input order. For the
  seeker whose only skill is \<open>react\<close>, the job with thirteen tags comes first in the input
  and the job with twelve tags second; both get the score 8 (from 7.69 and 8.33), and the
  job with twelve tags is returned first.
\<close>

theorem recommendations_ranking_counterexample:
  "map fst (jobPosting_findMany ex_db_rank) = [''j13'', ''j12'']
   \<and> map_sum id (map rec_matchScore) (getJobRecommendations toLowerCase ''p1'' ex_db_rank) = Inr [8, 8]
   \<and> map_sum id (map rec_id) (getJobRecommendations toLowerCase ''p1'' ex_db_rank) = Inr [''j12'', ''j13'']"
  using ex_rank_input ex_rank_scores ex_rank_ids by (intro conjI)

theorem recommendations_ranking_witness:
  "seekerProfiles ex_db_rank ''p1'' = Some ex_profile
   \<and> (\<exists>ms. findMatchingJobs toLowerCase ''p1'' ex_db_rank = Inr ms
          \<and> getJobRecommendations toLowerCase ''p1'' ex_db_rank = Inr (map toRecommendation ms)
          \<and> length ms = 2
          \<and> sorted_wrt (\<lambda>a b. matchScore b \<le> matchScore a) ms)"
proof -
  have p: "seekerProfiles ex_db_rank ''p1'' = Some ex_profile"
    by (simp add: ex_db_rank_def ex_db_def)
  have "length (jobPosting_findMany ex_db_rank) = 2"
    by (simp add: jobPosting_findMany_def ex_db_rank_def)
  with recommendations_ranking [OF p, of toLowerCase] p show ?thesis by auto
qed

end
